theory Spec2Isabelle
  imports Complex_Main "HOL-Library.Log_Nat"
begin

section \<open>Attrition risk scoring engine\<close>

text \<open>
  A shallow embedding of the attrition engine (\<^verbatim>\<open>calculateAttritionRisk\<close>,
  \<^verbatim>\<open>generateAttritionReport\<close> and their helpers).  Timestamps are milliseconds
  since the epoch, as \<^verbatim>\<open>Date\<close> stores them.  The four sub-scores and their weighted
  sum are given twice: over the real numbers, with exact quotients and the thresholds as
  the decimal fractions they are written as, and in double precision, with the rounding
  of every operation of the source.  The entry points compute with the latter.
\<close>

subsection \<open>Data\<close>

text \<open>An attendance row as the store returns it; only the date and the status are read.\<close>

record attendance =
  att_date :: int
  att_status :: string

record employee =
  emp_id :: string
  emp_employeeId :: string
  emp_name :: string
  emp_email :: string
  emp_companyId :: string
  emp_attendance :: "attendance list"

datatype jsError = Error string | TypeError string

datatype riskLevel = High | Moderate | Low | InsufficientData

record factors =
  absenteeism :: real
  leavePattern :: real
  consistency :: real
  recentTrend :: real

record statistics =
  totalDays :: nat
  presentDays :: nat
  absentDays :: nat
  plannedLeaveDays :: nat
  unplannedLeaveDays :: nat
  attendanceRate :: string
  absenteeismRate :: string

text \<open>
  The object returned by \<^verbatim>\<open>calculateAttritionRisk\<close>.  The short-circuit for an
  empty record sequence returns an object with no \<^verbatim>\<open>email\<close> and no
  \<^verbatim>\<open>statistics\<close> property and with the empty object as \<^verbatim>\<open>factors\<close>:
  these are \<open>None\<close> here.
\<close>

record assessment =
  employeeId :: string
  name :: string
  email :: "string option"
  score :: real
  riskLevel :: riskLevel
  factorsOf :: "factors option"
  statisticsOf :: "statistics option"
  recommendation :: string

record summary =
  high :: nat
  moderate :: nat
  low :: nat

record report =
  companyId :: string
  generatedAt :: int
  period :: string
  totalEmployees :: nat
  summaryOf :: summary
  employees :: "assessment list"

text \<open>
  The clock and the calendar arithmetic of \<^verbatim>\<open>Date\<close> are not part of the
  repository: \<open>now\<close> is the value of \<^verbatim>\<open>new Date()\<close> and
  \<open>setMonthBack t m\<close> the timestamp after
  \<^verbatim>\<open>d.setMonth(d.getMonth() - m)\<close> on a date \<open>d\<close> holding \<open>t\<close>.
\<close>

record jsClock =
  now :: int
  setMonthBack :: "int \<Rightarrow> int \<Rightarrow> int"

subsection \<open>Library functions of the language\<close>

text \<open>\<^verbatim>\<open>Array.prototype.slice(start, end)\<close> with its relative indices.\<close>

definition relIndex :: "int \<Rightarrow> int \<Rightarrow> int" where
  "relIndex len i = (if i < 0 then max (len + i) 0 else min i len)"

definition slice :: "'a list \<Rightarrow> int \<Rightarrow> int \<Rightarrow> 'a list" where
  "slice xs start end =
     (let len = int (length xs); k = relIndex len start; final = relIndex len end
      in take (nat (final - k)) (drop (nat k) xs))"

definition sliceFrom :: "'a list \<Rightarrow> int \<Rightarrow> 'a list" where
  "sliceFrom xs start = slice xs start (int (length xs))"

text \<open>\<^verbatim>\<open>Math.round\<close> rounds to the nearest integer, a tie towards plus infinity.\<close>

definition mathRound :: "real \<Rightarrow> real" where
  "mathRound x = of_int \<lfloor>x + 1 / 2\<rfloor>"

definition digitChar :: "nat \<Rightarrow> char" where
  "digitChar d = ''0123456789'' ! d"

fun showNat :: "nat \<Rightarrow> string" where
  "showNat n = (if n < 10 then [digitChar n] else showNat (n div 10) @ [digitChar (n mod 10)])"

declare showNat.simps [simp del]

definition showInt :: "int \<Rightarrow> string" where
  "showInt i = (if i < 0 then CHR ''-'' # showNat (nat (- i)) else showNat (nat i))"

text \<open>\<^verbatim>\<open>x.toFixed(2)\<close> for a non-negative \<open>x\<close>: the nearest multiple of 0.01, the larger at a tie.\<close>

definition toFixed2 :: "real \<Rightarrow> string" where
  "toFixed2 x =
     (let n = nat \<lfloor>x * 100 + 1 / 2\<rfloor>
      in showNat (n div 100) @ ''.'' @ [digitChar ((n div 10) mod 10), digitChar (n mod 10)])"

subsection \<open>Double-precision arithmetic\<close>

text \<open>
  A JavaScript number is an IEEE 754 double: each arithmetic operation returns the exact
  result rounded to the nearest number with a 53-bit significand, a tie to the one with
  an even significand.  \<open>fl\<close> is this rounding on the reals; \<open>exponent x\<close> is the
  integer \<open>e\<close> with \<open>2^e \<le> x < 2^(e+1)\<close>.  The exponent range is not bounded here: the
  numbers of this program are rates, scores and their differences and squares, far from
  the subnormal numbers and from overflow.  A quotient \<^verbatim>\<open>a / b\<close> of the source is
  \<open>fl (a / b)\<close>, a decimal literal \<^verbatim>\<open>0.15\<close> is \<open>fl 0.15\<close>, and an integer below
  \<open>2^53\<close> is itself.
\<close>

definition roundEven :: "real \<Rightarrow> int" where
  "roundEven y =
     (let f = \<lfloor>y\<rfloor>; r = y - of_int f
      in if r < 1 / 2 then f else if r > 1 / 2 then f + 1 else if even f then f else f + 1)"

definition exponent :: "real \<Rightarrow> int" where
  "exponent x = (if 1 \<le> x then bitlen \<lfloor>x\<rfloor> - 1 else - bitlen (\<lceil>1 / x\<rceil> - 1))"

definition fl :: "real \<Rightarrow> real" where
  "fl x =
     (if x = 0 then 0
      else let e = exponent \<bar>x\<bar> - 52
           in sgn x * of_int (roundEven (\<bar>x\<bar> / 2 powi e)) * 2 powi e)"

subsection \<open>The four sub-scores over the reals\<close>

text \<open>
  The formulas of the four functions with exact arithmetic: the rate is the quotient of
  the two counts and a threshold is the decimal fraction it is written as.  They state
  what the formulas mean, and the range and boundary properties below are about them;
  what the source returns is computed by the functions of the next subsection, which can
  differ from these by the rounding.
\<close>

text \<open>
  \<^verbatim>\<open>calculateAbsenteeismScore\<close>.  The source computes the rate and walks the
  threshold chain in one body; the chain is named \<open>absenteeismBands\<close> here so that it can
  be stated as a function of the rate.  On the empty sequence JavaScript computes
  \<^verbatim>\<open>0 / 0 = NaN\<close>; \<^verbatim>\<open>calculateAttritionRisk\<close> returns before it calls
  the function there, and every statement below about the rate is for a non-empty sequence.
\<close>

definition absentRate :: "attendance list \<Rightarrow> real" where
  "absentRate records =
     real (length (filter (\<lambda>r. att_status r = ''Absent'') records)) / real (length records)"

definition absenteeismBands :: "real \<Rightarrow> real" where
  "absenteeismBands rate =
     (if rate \<ge> 0.20 then 100
      else if rate \<ge> 0.15 then 85
      else if rate \<ge> 0.10 then 65
      else if rate \<ge> 0.05 then 40
      else rate * 800)"





definition recentRecords :: "attendance list \<Rightarrow> attendance list" where
  "recentRecords records = sliceFrom records (- 15)"

definition previousRecords :: "attendance list \<Rightarrow> attendance list" where
  "previousRecords records = slice records (- 30) (- 15)"

definition trendBands :: "real \<Rightarrow> real" where
  "trendBands trend =
     (if trend \<ge> 0.15 then 100
      else if trend \<ge> 0.10 then 75
      else if trend \<ge> 0.05 then 50
      else if trend > 0 then trend * 500
      else 0)"

definition calculateRecentTrendScore :: "attendance list \<Rightarrow> real" where
  "calculateRecentTrendScore records =
     (if length records < 20 then 0
      else
        let recentAbsentRate = absentRate (recentRecords records);
            previousAbsentRate = absentRate (previousRecords records);
            trend = recentAbsentRate - previousAbsentRate
        in trendBands trend)"

subsection \<open>The four sub-scores in double precision\<close>

text \<open>
  The same four functions with the arithmetic of the source: every quotient, product,
  sum and difference is rounded by \<open>fl\<close>, and every decimal literal is the double nearest
  to it.  The counts are integers and exact.  \<^verbatim>\<open>Math.pow(d, 2)\<close> is taken as the
  correctly rounded square and \<^verbatim>\<open>Math.sqrt\<close> as the correctly rounded root.  These
  are the functions the entry points below call.
\<close>

definition absentRate64 :: "attendance list \<Rightarrow> real" where
  "absentRate64 records =
     fl (real (length (filter (\<lambda>r. att_status r = ''Absent'') records)) / real (length records))"

definition calculateAbsenteeismScore64 :: "attendance list \<Rightarrow> real" where
  "calculateAbsenteeismScore64 records =
     (let absentRate = absentRate64 records
      in if absentRate \<ge> fl 0.20 then 100
         else if absentRate \<ge> fl 0.15 then 85
         else if absentRate \<ge> fl 0.10 then 65
         else if absentRate \<ge> fl 0.05 then 40
         else fl (absentRate * 800))"

definition calculateLeavePatternScore64 :: "attendance list \<Rightarrow> real" where
  "calculateLeavePatternScore64 records =
     (let totalLeaves = length (filter (\<lambda>r. att_status r = ''Planned Leave''
                                           \<or> att_status r = ''Unplanned Leave'') records)
      in if totalLeaves = 0 then 0
         else
           let unplannedLeaves = length (filter (\<lambda>r. att_status r = ''Unplanned Leave'') records);
               unplannedRatio = fl (real unplannedLeaves / real totalLeaves)
           in if unplannedRatio \<ge> fl 0.80 then 90
              else if unplannedRatio \<ge> fl 0.60 then 70
              else if unplannedRatio \<ge> fl 0.40 then 50
              else if unplannedRatio \<ge> fl 0.20 then 30
              else fl (unplannedRatio * 100))"

fun weeklyRatesLoop64 :: "attendance list \<Rightarrow> attendance list \<Rightarrow> real list \<Rightarrow> real list" where
  "weeklyRatesLoop64 [] currentWeek weeklyRates = weeklyRates"
| "weeklyRatesLoop64 (record # rest) currentWeek weeklyRates =
     (let week = currentWeek @ [record]
      in if length week = 5 \<or> rest = []
         then weeklyRatesLoop64 rest [] (weeklyRates @ [absentRate64 week])
         else weeklyRatesLoop64 rest week weeklyRates)"

definition calculateConsistencyScore64 :: "attendance list \<Rightarrow> real" where
  "calculateConsistencyScore64 records =
     (let weeklyRates = weeklyRatesLoop64 records [] []
      in if length weeklyRates < 2 then 0
         else
           let mean = fl (foldl (\<lambda>a b. fl (a + b)) 0 weeklyRates / real (length weeklyRates));
               variance = fl (foldl (\<lambda>sum rate. fl (sum + fl (fl (rate - mean) * fl (rate - mean))))
                                 0 weeklyRates
                              / real (length weeklyRates));
               stdDev = fl (sqrt variance)
           in min (fl (stdDev * 200)) 100)"

definition calculateRecentTrendScore64 :: "attendance list \<Rightarrow> real" where
  "calculateRecentTrendScore64 records =
     (if length records < 20 then 0
      else
        let recentAbsentRate = absentRate64 (recentRecords records);
            previousAbsentRate = absentRate64 (previousRecords records);
            trend = fl (recentAbsentRate - previousAbsentRate)
        in if trend \<ge> fl 0.15 then 100
           else if trend \<ge> fl 0.10 then 75
           else if trend \<ge> fl 0.05 then 50
           else if trend > 0 then fl (trend * 500)
           else 0)"

subsection \<open>Composite score, level, statistics and recommendation\<close>


text \<open>
  The weighted sum as \<^verbatim>\<open>calculateAttritionRisk\<close> computes it: four rounded
  products, added from the left.
\<close>

definition compositeScore64 :: "attendance list \<Rightarrow> real" where
  "compositeScore64 records =
     fl (fl (fl (fl (calculateAbsenteeismScore64 records * fl 0.35) +
                 fl (calculateLeavePatternScore64 records * fl 0.25)) +
             fl (calculateConsistencyScore64 records * fl 0.25)) +
         fl (calculateRecentTrendScore64 records * fl 0.15))"

definition determineRiskLevel :: "real \<Rightarrow> riskLevel" where
  "determineRiskLevel s = (if s \<ge> 70 then High else if s \<ge> 40 then Moderate else Low)"

definition countStatus :: "string \<Rightarrow> attendance list \<Rightarrow> nat" where
  "countStatus s records = length (filter (\<lambda>r. att_status r = s) records)"

definition calculateStatistics :: "attendance list \<Rightarrow> statistics" where
  "calculateStatistics records =
     (let total = length records;
          present = countStatus ''Present'' records;
          absent = countStatus ''Absent'' records;
          plannedLeave = countStatus ''Planned Leave'' records;
          unplannedLeave = countStatus ''Unplanned Leave'' records
      in \<lparr> totalDays = total, presentDays = present, absentDays = absent,
           plannedLeaveDays = plannedLeave, unplannedLeaveDays = unplannedLeave,
           attendanceRate = toFixed2 (fl (fl (real present / real total) * 100)) @ ''%'',
           absenteeismRate = toFixed2 (fl (fl (real absent / real total) * 100)) @ ''%'' \<rparr>)"

definition generateRecommendation :: "riskLevel \<Rightarrow> real \<Rightarrow> string" where
  "generateRecommendation level s =
     (if level = High
      then ''URGENT: Schedule immediate 1-on-1 meeting. Investigate causes of absenteeism. Consider retention strategies.''
      else if level = Moderate
      then ''MONITOR: Regular check-ins recommended. Address any workplace concerns proactively.''
      else ''LOW RISK: Continue standard engagement practices. Employee shows stable attendance.'')"

subsection \<open>The store query and the two entry points\<close>

text \<open>
  \<^verbatim>\<open>prisma.employee.findUnique\<close> with the \<^verbatim>\<open>where\<close> and
  \<^verbatim>\<open>orderBy\<close> clauses of the source: the employee with the given primary key,
  its attendance restricted to \<open>[gte, lte]\<close> and ordered by date ascending.
\<close>

definition findUnique :: "employee list \<Rightarrow> string \<Rightarrow> int \<Rightarrow> int \<Rightarrow> employee option" where
  "findUnique db ident gte lte =
     map_option
       (\<lambda>e. e\<lparr>emp_attendance :=
                 sort_key att_date
                   (filter (\<lambda>a. gte \<le> att_date a \<and> att_date a \<le> lte) (emp_attendance e))\<rparr>)
       (find (\<lambda>e. emp_id e = ident) db)"

definition findMany :: "employee list \<Rightarrow> string \<Rightarrow> employee list" where
  "findMany db cid = filter (\<lambda>e. emp_companyId e = cid) db"

definition scoreRecords :: "employee \<Rightarrow> attendance list \<Rightarrow> assessment" where
  "scoreRecords emp attendanceRecords =
     (let absenteeismScore = calculateAbsenteeismScore64 attendanceRecords;
          leavePatternScore = calculateLeavePatternScore64 attendanceRecords;
          consistencyScore = calculateConsistencyScore64 attendanceRecords;
          recentTrendScore = calculateRecentTrendScore64 attendanceRecords;
          composite = compositeScore64 attendanceRecords;
          level = determineRiskLevel composite
      in \<lparr> employeeId = emp_employeeId emp,
           name = emp_name emp,
           email = Some (emp_email emp),
           score = fl (mathRound (fl (composite * 10)) / 10),
           riskLevel = level,
           factorsOf = Some \<lparr> absenteeism = fl (mathRound (fl (absenteeismScore * 10)) / 10),
                              leavePattern = fl (mathRound (fl (leavePatternScore * 10)) / 10),
                              consistency = fl (mathRound (fl (consistencyScore * 10)) / 10),
                              recentTrend = fl (mathRound (fl (recentTrendScore * 10)) / 10) \<rparr>,
           statisticsOf = Some (calculateStatistics attendanceRecords),
           recommendation = generateRecommendation level composite \<rparr>)"

definition insufficientData :: "employee \<Rightarrow> assessment" where
  "insufficientData emp =
     \<lparr> employeeId = emp_employeeId emp,
       name = emp_name emp,
       email = None,
       score = 0,
       riskLevel = InsufficientData,
       factorsOf = None,
       statisticsOf = None,
       recommendation = ''Need at least 3 months of attendance data'' \<rparr>"

definition calculateAttritionRisk ::
    "jsClock \<Rightarrow> employee list \<Rightarrow> string \<Rightarrow> int \<Rightarrow> jsError + assessment" where
  "calculateAttritionRisk clock db ident months =
     (let endDate = now clock;
          startDate = setMonthBack clock (now clock) months
      in case findUnique db ident startDate endDate of
           None \<Rightarrow> Inl (Error ''Employee not found'')
         | Some emp \<Rightarrow>
             (let attendanceRecords = emp_attendance emp
              in if length attendanceRecords = 0 then Inr (insufficientData emp)
                 else Inr (scoreRecords emp attendanceRecords)))"

text \<open>
  The loop of \<^verbatim>\<open>generateAttritionReport\<close>: a failed scoring is logged and
  leaves \<open>results\<close> as it is.
\<close>

fun collectRisks :: "jsClock \<Rightarrow> employee list \<Rightarrow> int \<Rightarrow> employee list \<Rightarrow> assessment list
                      \<Rightarrow> assessment list" where
  "collectRisks clock db months [] results = results"
| "collectRisks clock db months (e # es) results =
     (case calculateAttritionRisk clock db (emp_id e) months of
        Inr risk \<Rightarrow> collectRisks clock db months es (results @ [risk])
      | Inl err \<Rightarrow> collectRisks clock db months es results)"

text \<open>
  \<^verbatim>\<open>results.sort((a, b) => b.score - a.score)\<close> is a stable sort by descending
  score, as \<open>sort_key\<close> on the negated score is.
\<close>

definition generateAttritionReport :: "jsClock \<Rightarrow> employee list \<Rightarrow> string \<Rightarrow> int \<Rightarrow> report" where
  "generateAttritionReport clock db cid months =
     (let emps = findMany db cid;
          results = sort_key (\<lambda>r. - score r) (collectRisks clock db months emps [])
      in \<lparr> companyId = cid,
           generatedAt = now clock,
           period = showInt months @ '' months'',
           totalEmployees = length emps,
           summaryOf = \<lparr> high = length (filter (\<lambda>r. riskLevel r = High) results),
                           moderate = length (filter (\<lambda>r. riskLevel r = Moderate) results),
                           low = length (filter (\<lambda>r. riskLevel r = Low) results) \<rparr>,
           employees = results \<rparr>)"

section \<open>Example inputs\<close>

text \<open>A weekday row: day \<open>d\<close> since the epoch at midnight, with a status.\<close>

definition day :: "int \<Rightarrow> string \<Rightarrow> attendance" where
  "day d s = \<lparr> att_date = d * 86400000, att_status = s \<rparr>"

definition allPresent :: "attendance list" where
  "allPresent = map (\<lambda>d. day d ''Present'') [0, 1, 2, 3, 4]"

definition oneInTwenty :: "attendance list" where
  "oneInTwenty = day 0 ''Absent'' # map (\<lambda>d. day d ''Present'') [1, 2, 3, 4, 7, 8, 9, 10, 11, 14, 15, 16, 17, 18, 21, 22, 23, 24, 25]"

text \<open>
  Twenty records: one absence in the first five days, four absences in the last fifteen.
\<close>

definition trendExample :: "attendance list" where
  "trendExample =
     [day 0 ''Absent'', day 1 ''Present'', day 2 ''Present'', day 3 ''Present'', day 4 ''Present'',
      day 7 ''Absent'', day 8 ''Absent'', day 9 ''Absent'', day 10 ''Absent'', day 11 ''Present'',
      day 14 ''Present'', day 15 ''Present'', day 16 ''Present'', day 17 ''Present'', day 18 ''Present'',
      day 21 ''Present'', day 22 ''Present'', day 23 ''Present'', day 24 ''Present'', day 25 ''Present'']"

text \<open>
  Twenty-five records: five absences in the first ten days, nine in the last fifteen.
\<close>

definition lateAbsences :: "attendance list" where
  "lateAbsences =
     map (\<lambda>d. day d ''Absent'') [0, 1, 2, 3, 4] @ map (\<lambda>d. day d ''Present'') [7, 8, 9, 10, 11]
     @ map (\<lambda>d. day d ''Absent'') [14, 15, 16, 17, 18, 21, 22, 23, 24]
     @ map (\<lambda>d. day d ''Present'') [25, 28, 29, 30, 31, 32]"


text \<open>
  A clock at day 30 whose months have 30 days, an employee with no attendance, and an
  employee whose eleven records give a composite score just below 70.
\<close>

definition exampleClock :: jsClock where
  "exampleClock = \<lparr> now = 30 * 86400000, setMonthBack = (\<lambda>t m. t - m * 30 * 86400000) \<rparr>"

definition roundingExample :: "attendance list" where
  "roundingExample =
     [day 0 ''Present'', day 1 ''Present'', day 2 ''Present'', day 3 ''Present'', day 4 ''Absent'',
      day 7 ''Present'', day 8 ''Absent'', day 9 ''Absent'', day 10 ''Absent'', day 11 ''Present'',
      day 14 ''Unplanned Leave'']"

definition newHire :: employee where
  "newHire = \<lparr> emp_id = ''1'', emp_employeeId = ''E1'', emp_name = ''Ada'',
               emp_email = ''ada@example.com'', emp_companyId = ''acme'', emp_attendance = [] \<rparr>"

definition borderline :: employee where
  "borderline = \<lparr> emp_id = ''2'', emp_employeeId = ''E2'', emp_name = ''Bob'',
               emp_email = ''bob@example.com'', emp_companyId = ''acme'',
               emp_attendance = roundingExample \<rparr>"

definition exampleDb :: "employee list" where
  "exampleDb = [newHire, borderline]"

section \<open>File parser: validation and normalisation of uploaded rows\<close>

text \<open>
  A shallow embedding of \<^verbatim>\<open>FileParserService.validateAndNormalize\<close>.  A row is the
  object the CSV or spreadsheet parser returns for one line: column names with their cell
  texts, a column at most once.  A cell the parser left out is \<^verbatim>\<open>undefined\<close>
  (\<open>None\<close>); cells are strings, as the CSV parser yields them.
\<close>

subsection \<open>Data\<close>

type_synonym rawRecord = "(string \<times> string) list"

definition field :: "rawRecord \<Rightarrow> string \<Rightarrow> string option" where
  "field record col = map_of record col"

text \<open>A \<^verbatim>\<open>Date\<close> object: a time value in milliseconds, or the invalid date (\<^verbatim>\<open>NaN\<close>).\<close>

datatype jsDate = InvalidDate | Date int

text \<open>
  The date functions come from outside the repository and are parameters of the model:
  \<open>parseDate s\<close> is \<^verbatim>\<open>parse(s, 'yyyy-MM-dd', new Date())\<close> of date-fns,
  \<open>isWeekend t\<close> its \<^verbatim>\<open>isWeekend\<close> on a valid date holding \<open>t\<close>, and
  \<open>newDate s\<close> is \<^verbatim>\<open>new Date(s)\<close>.
\<close>

record dateLib =
  parseDate :: "string \<Rightarrow> jsDate"
  isWeekend :: "int \<Rightarrow> bool"
  newDate :: "string \<Rightarrow> jsDate"

record attendanceRecord =
  rec_employeeId :: string
  rec_employeeName :: string
  rec_date :: jsDate
  rec_status :: string
  rec_informedTime :: "jsDate option"
  rec_department :: string
  rec_managerEmail :: string

text \<open>An entry of \<^verbatim>\<open>errors\<close>: \<^verbatim>\<open>{row, errors}\<close> or \<^verbatim>\<open>{employee, errors}\<close>.\<close>

datatype validationError = RowError nat "string list" | EmployeeError string "string list"

record parseResult =
  valid :: bool
  validRecords :: "attendanceRecord list"
  invalidRecords :: nat
  errors :: "validationError list"

text \<open>The three variables the row loop updates.\<close>

record loopState =
  st_errors :: "validationError list"
  st_validRecords :: "attendanceRecord list"
  st_seenKeys :: "string list"

definition REQUIRED_COLUMNS :: "string list" where
  "REQUIRED_COLUMNS =
     [''employee_id'', ''employee_name'', ''date'', ''status'', ''informed_time'',
      ''department'', ''manager_email'']"

definition VALID_STATUSES :: "string list" where
  "VALID_STATUSES = [''Present'', ''Planned Leave'', ''Unplanned Leave'', ''Absent'']"

subsection \<open>Strings\<close>

text \<open>
  A string is a sequence of code units below 256, the Latin-1 range, which holds the
  texts of the examples.  In this range \<^verbatim>\<open>trim\<close> and the white-space class of
  regular expressions recognise tab, line feed, vertical tab, form feed, carriage return,
  space and the no-break space; \<^verbatim>\<open>toLowerCase\<close> maps the letters A to Z and the
  accented capitals \<open>0xC0\<close> to \<open>0xDE\<close> (without the multiplication sign \<open>0xD7\<close>) to
  the code unit 32 above.
\<close>

definition isSpace :: "char \<Rightarrow> bool" where
  "isSpace c = (c \<in> set [CHR '' '', CHR 0x09, CHR 0x0A, CHR 0x0B, CHR 0x0C, CHR 0x0D, CHR 0xA0])"

definition trim :: "string \<Rightarrow> string" where
  "trim s = rev (dropWhile isSpace (rev (dropWhile isSpace s)))"

definition toLowerChar :: "char \<Rightarrow> char" where
  "toLowerChar c =
     (case map_of (zip (''ABCDEFGHIJKLMNOPQRSTUVWXYZ''
                        @ [CHR 0xC0, CHR 0xC1, CHR 0xC2, CHR 0xC3, CHR 0xC4, CHR 0xC5, CHR 0xC6,
                           CHR 0xC7, CHR 0xC8, CHR 0xC9, CHR 0xCA, CHR 0xCB, CHR 0xCC, CHR 0xCD,
                           CHR 0xCE, CHR 0xCF, CHR 0xD0, CHR 0xD1, CHR 0xD2, CHR 0xD3, CHR 0xD4,
                           CHR 0xD5, CHR 0xD6, CHR 0xD8, CHR 0xD9, CHR 0xDA, CHR 0xDB, CHR 0xDC,
                           CHR 0xDD, CHR 0xDE])
                       (''abcdefghijklmnopqrstuvwxyz''
                        @ [CHR 0xE0, CHR 0xE1, CHR 0xE2, CHR 0xE3, CHR 0xE4, CHR 0xE5, CHR 0xE6,
                           CHR 0xE7, CHR 0xE8, CHR 0xE9, CHR 0xEA, CHR 0xEB, CHR 0xEC, CHR 0xED,
                           CHR 0xEE, CHR 0xEF, CHR 0xF0, CHR 0xF1, CHR 0xF2, CHR 0xF3, CHR 0xF4,
                           CHR 0xF5, CHR 0xF6, CHR 0xF8, CHR 0xF9, CHR 0xFA, CHR 0xFB, CHR 0xFC,
                           CHR 0xFD, CHR 0xFE])) c of
        Some l \<Rightarrow> l
      | None \<Rightarrow> c)"

definition toLowerCase :: "string \<Rightarrow> string" where
  "toLowerCase s = map toLowerChar s"

fun joinWith :: "string \<Rightarrow> string list \<Rightarrow> string" where
  "joinWith sep [] = []"
| "joinWith sep [x] = x"
| "joinWith sep (x # y # ys) = x @ sep @ joinWith sep (y # ys)"

text \<open>A value inside a template literal: \<^verbatim>\<open>undefined\<close> prints as its name.\<close>

definition jsString :: "string option \<Rightarrow> string" where
  "jsString v = (case v of None \<Rightarrow> ''undefined'' | Some s \<Rightarrow> s)"

text \<open>
  \<^verbatim>\<open>emailRegex.test(s)\<close>.  The expression asks for one or more characters
  that are neither white space nor \<^verbatim>\<open>@\<close>, then \<^verbatim>\<open>@\<close>, then one or more
  such characters, a dot, and one or more such characters up to the end: a non-empty local
  part, a single \<^verbatim>\<open>@\<close>, and a domain with a dot that is neither its first nor its
  last character.
\<close>

definition emailRegexTest :: "string \<Rightarrow> bool" where
  "emailRegexTest s =
     (let local = takeWhile (\<lambda>c. c \<noteq> CHR ''@'') s;
          rest = dropWhile (\<lambda>c. c \<noteq> CHR ''@'') s
      in local \<noteq> [] \<and> list_all (\<lambda>c. \<not> isSpace c) local \<and> rest \<noteq> []
         \<and> list_all (\<lambda>c. \<not> isSpace c \<and> c \<noteq> CHR ''@'') (tl rest)
         \<and> CHR ''.'' \<in> set (butlast (tl (tl rest))))"

subsection \<open>The rules of one row\<close>

definition employeeIdErrors :: "rawRecord \<Rightarrow> string list" where
  "employeeIdErrors record =
     (case field record ''employee_id'' of
        None \<Rightarrow> [''employee_id is required'']
      | Some v \<Rightarrow>
          if v = [] \<or> trim v = [] then [''employee_id is required'']
          else if length v > 20 then [''employee_id must be max 20 characters'']
          else [])"

definition employeeNameErrors :: "rawRecord \<Rightarrow> string list" where
  "employeeNameErrors record =
     (case field record ''employee_name'' of
        None \<Rightarrow> [''employee_name is required'']
      | Some v \<Rightarrow>
          if v = [] \<or> trim v = [] then [''employee_name is required'']
          else if length v > 100 then [''employee_name must be max 100 characters'']
          else [])"

text \<open>
  \<^verbatim>\<open>parsedDate\<close>.  On a missing cell the parser of date-fns either returns the
  invalid date or throws into the \<^verbatim>\<open>catch\<close>, which leaves \<^verbatim>\<open>parsedDate\<close>
  undefined; both report the format error and both compare as \<^verbatim>\<open>NaN\<close> later.
\<close>

definition parsedDateOf :: "dateLib \<Rightarrow> rawRecord \<Rightarrow> jsDate" where
  "parsedDateOf lib record =
     (case field record ''date'' of None \<Rightarrow> InvalidDate | Some s \<Rightarrow> parseDate lib s)"

definition dateErrors :: "dateLib \<Rightarrow> jsDate \<Rightarrow> string list" where
  "dateErrors lib parsedDate =
     (case parsedDate of
        InvalidDate \<Rightarrow> [''date must be in YYYY-MM-DD format'']
      | Date t \<Rightarrow>
          if isWeekend lib t then [''date cannot be a weekend (Saturday/Sunday)''] else [])"

definition statusErrors :: "rawRecord \<Rightarrow> string list" where
  "statusErrors record =
     (if (case field record ''status'' of None \<Rightarrow> False | Some s \<Rightarrow> s \<in> set VALID_STATUSES)
      then []
      else [''status must be one of: '' @ joinWith '', '' VALID_STATUSES])"

text \<open>
  \<^verbatim>\<open>informedDate > parsedDate\<close> compares the time values and is false when one of
  them is \<^verbatim>\<open>NaN\<close>; \<^verbatim>\<open>Math.abs(parsedDate - informedDate) / (1000 * 60 * 60)\<close>
  is \<^verbatim>\<open>NaN\<close> (\<open>None\<close>) then, and \<^verbatim>\<open>NaN > 24\<close> is false.
\<close>

definition dateGreater :: "jsDate \<Rightarrow> jsDate \<Rightarrow> bool" where
  "dateGreater a b = (case (a, b) of (Date x, Date y) \<Rightarrow> x > y | _ \<Rightarrow> False)"

definition hoursBetween :: "jsDate \<Rightarrow> jsDate \<Rightarrow> real option" where
  "hoursBetween a b =
     (case (a, b) of
        (Date x, Date y) \<Rightarrow> Some (\<bar>real_of_int (x - y)\<bar> / (1000 * 60 * 60))
      | _ \<Rightarrow> None)"

definition informedTimeErrors :: "dateLib \<Rightarrow> rawRecord \<Rightarrow> jsDate \<Rightarrow> string list" where
  "informedTimeErrors lib record parsedDate =
     (if field record ''status'' = Some ''Planned Leave''
         \<or> field record ''status'' = Some ''Unplanned Leave''
      then
        (case field record ''informed_time'' of
           None \<Rightarrow> [''informed_time is required for leave records'']
         | Some s \<Rightarrow>
             if s = [] then [''informed_time is required for leave records'']
             else
               let informedDate = newDate lib s
               in if informedDate = InvalidDate then [''informed_time must be valid datetime'']
                  else if field record ''status'' = Some ''Planned Leave''
                          \<and> dateGreater informedDate parsedDate
                  then [''informed_time must be before the leave date for planned leave'']
                  else if field record ''status'' = Some ''Unplanned Leave''
                  then
                    (case hoursBetween parsedDate informedDate of
                       Some timeDiff \<Rightarrow>
                         if timeDiff > 24
                         then [''informed_time must be within 24 hours of date for unplanned leave'']
                         else []
                     | None \<Rightarrow> [])
                  else [])
      else [])"

definition departmentErrors :: "rawRecord \<Rightarrow> string list" where
  "departmentErrors record =
     (case field record ''department'' of
        None \<Rightarrow> [''department is required'']
      | Some v \<Rightarrow>
          if v = [] \<or> trim v = [] then [''department is required'']
          else if length v > 50 then [''department must be max 50 characters'']
          else [])"

definition managerEmailErrors :: "rawRecord \<Rightarrow> string list" where
  "managerEmailErrors record =
     (case field record ''manager_email'' of
        None \<Rightarrow> [''manager_email must be a valid email address'']
      | Some v \<Rightarrow>
          if v = [] \<or> \<not> emailRegexTest v then [''manager_email must be a valid email address'']
          else [])"

definition rowKey :: "rawRecord \<Rightarrow> string" where
  "rowKey record = jsString (field record ''employee_id'') @ ''_'' @ jsString (field record ''date'')"

definition duplicateErrors :: "string list \<Rightarrow> rawRecord \<Rightarrow> string list" where
  "duplicateErrors seenKeys record =
     (if rowKey record \<in> set seenKeys then [''duplicate employee_id + date combination''] else [])"

text \<open>The messages of the rules before the duplicate check, in the order of the source.\<close>

definition fieldErrors :: "dateLib \<Rightarrow> rawRecord \<Rightarrow> string list" where
  "fieldErrors lib record =
     employeeIdErrors record @ employeeNameErrors record
     @ dateErrors lib (parsedDateOf lib record) @ statusErrors record
     @ informedTimeErrors lib record (parsedDateOf lib record)
     @ departmentErrors record @ managerEmailErrors record"

text \<open>
  The object pushed to \<^verbatim>\<open>validRecords\<close>.  \<^verbatim>\<open>trim\<close> on a missing cell would
  throw; the result is \<open>None\<close> there.
\<close>

definition normalizeRecord :: "dateLib \<Rightarrow> rawRecord \<Rightarrow> attendanceRecord option" where
  "normalizeRecord lib record =
     (case (field record ''employee_id'', field record ''employee_name'', field record ''status'',
            field record ''department'', field record ''manager_email'') of
        (Some ident, Some ename, Some st, Some dept, Some mail) \<Rightarrow>
          Some \<lparr> rec_employeeId = trim ident,
                 rec_employeeName = trim ename,
                 rec_date = parsedDateOf lib record,
                 rec_status = st,
                 rec_informedTime =
                   (case field record ''informed_time'' of
                      None \<Rightarrow> None
                    | Some s \<Rightarrow> if s = [] then None else Some (newDate lib s)),
                 rec_department = trim dept,
                 rec_managerEmail = toLowerCase (trim mail) \<rparr>
      | _ \<Rightarrow> None)"

subsection \<open>The loop over the rows\<close>

definition rowStep :: "dateLib \<Rightarrow> nat \<Rightarrow> rawRecord \<Rightarrow> loopState \<Rightarrow> jsError + loopState" where
  "rowStep lib index record st =
     (let rowNumber = index + 2;
          rowErrors = fieldErrors lib record @ duplicateErrors (st_seenKeys st) record;
          seen = (if rowKey record \<in> set (st_seenKeys st) then st_seenKeys st
                  else st_seenKeys st @ [rowKey record])
      in if length rowErrors > 0
         then Inr (st\<lparr> st_errors := st_errors st @ [RowError rowNumber rowErrors],
                       st_seenKeys := seen \<rparr>)
         else
           (case normalizeRecord lib record of
              None \<Rightarrow> Inl (TypeError ''Cannot read properties of undefined'')
            | Some v \<Rightarrow> Inr (st\<lparr> st_validRecords := st_validRecords st @ [v],
                                   st_seenKeys := seen \<rparr>)))"

fun validateRows :: "dateLib \<Rightarrow> nat \<Rightarrow> rawRecord list \<Rightarrow> loopState \<Rightarrow> jsError + loopState" where
  "validateRows lib index [] st = Inr st"
| "validateRows lib index (record # rest) st =
     (case rowStep lib index record st of
        Inl err \<Rightarrow> Inl err
      | Inr st' \<Rightarrow> validateRows lib (index + 1) rest st')"

subsection \<open>The volume check\<close>

text \<open>
  \<^verbatim>\<open>employeeGroups\<close> is an object literal used as a dictionary: its own properties
  in the order of creation.  A name that \<^verbatim>\<open>Object.prototype\<close> defines is found
  on an empty object as well, with a value that is truthy and has no \<^verbatim>\<open>push\<close>;
  the call on it throws a \<^verbatim>\<open>TypeError\<close>.
\<close>

definition objectPrototypeKeys :: "string list" where
  "objectPrototypeKeys =
     [''constructor'', ''__defineGetter__'', ''__defineSetter__'', ''hasOwnProperty'',
      ''__lookupGetter__'', ''__lookupSetter__'', ''isPrototypeOf'', ''propertyIsEnumerable'',
      ''toString'', ''valueOf'', ''__proto__'', ''toLocaleString'']"

fun groupRecords ::
    "attendanceRecord list \<Rightarrow> (string \<times> attendanceRecord list) list
       \<Rightarrow> jsError + (string \<times> attendanceRecord list) list" where
  "groupRecords [] employeeGroups = Inr employeeGroups"
| "groupRecords (record # rest) employeeGroups =
     (case map_of employeeGroups (rec_employeeId record) of
        Some members \<Rightarrow>
          groupRecords rest
            (map (\<lambda>(k, v). if k = rec_employeeId record then (k, v @ [record]) else (k, v))
               employeeGroups)
      | None \<Rightarrow>
          if rec_employeeId record \<in> set objectPrototypeKeys
          then Inl (TypeError ''employeeGroups[record.employeeId].push is not a function'')
          else groupRecords rest (employeeGroups @ [(rec_employeeId record, [record])]))"

text \<open>
  \<^verbatim>\<open>Object.entries\<close> lists the properties whose names are array indices
  (canonical decimal numbers below \<open>2^32 - 1\<close>) first, in ascending numeric order, and
  the other properties after them in the order of creation.
\<close>

definition digitValue :: "char \<Rightarrow> nat" where
  "digitValue c =
     (case map_of (zip ''0123456789'' [0, 1, 2, 3, 4, 5, 6, 7, 8, 9]) c of
        Some d \<Rightarrow> d
      | None \<Rightarrow> 0)"

definition readNat :: "string \<Rightarrow> nat" where
  "readNat s = foldl (\<lambda>acc c. acc * 10 + digitValue c) 0 s"

definition isArrayIndex :: "string \<Rightarrow> bool" where
  "isArrayIndex s =
     (s \<noteq> [] \<and> list_all (\<lambda>c. c \<in> set ''0123456789'') s
      \<and> (s = ''0'' \<or> hd s \<noteq> CHR ''0'')
      \<and> length s \<le> 10 \<and> readNat s < 4294967295)"

definition objectEntries :: "(string \<times> 'v) list \<Rightarrow> (string \<times> 'v) list" where
  "objectEntries obj =
     sort_key (\<lambda>(k, v). readNat k) (filter (\<lambda>(k, v). isArrayIndex k) obj)
     @ filter (\<lambda>(k, v). \<not> isArrayIndex k) obj"

definition volumeMessage :: "nat \<Rightarrow> string" where
  "volumeMessage n =
     ''Employee must have approximately 63 working days of data (3 months, 5-day week). Found ''
     @ showNat n @ '' days.''"

definition volumeErrors :: "(string \<times> attendanceRecord list) list \<Rightarrow> validationError list" where
  "volumeErrors employeeGroups =
     map (\<lambda>(empId, records). EmployeeError empId [volumeMessage (length records)])
       (filter (\<lambda>(empId, records). length records < 55 \<or> length records > 70)
          (objectEntries employeeGroups))"

subsection \<open>The entry point\<close>

definition validateAndNormalize :: "dateLib \<Rightarrow> rawRecord list \<Rightarrow> jsError + parseResult" where
  "validateAndNormalize lib records =
     (case records of
        [] \<Rightarrow> Inl (Error ''File is empty'')
      | first # others \<Rightarrow>
          let columns = map fst first;
              missingColumns = filter (\<lambda>col. col \<notin> set columns) REQUIRED_COLUMNS
          in if length missingColumns > 0
             then Inl (Error (''Missing required columns: '' @ joinWith '', '' missingColumns))
             else
               (case validateRows lib 0 records
                       \<lparr> st_errors = [], st_validRecords = [], st_seenKeys = [] \<rparr> of
                  Inl err \<Rightarrow> Inl err
                | Inr st \<Rightarrow>
                    (case groupRecords (st_validRecords st) [] of
                       Inl err \<Rightarrow> Inl err
                     | Inr employeeGroups \<Rightarrow>
                         let errs = st_errors st @ volumeErrors employeeGroups
                         in Inr \<lparr> valid = (length errs = 0),
                                  validRecords = st_validRecords st,
                                  invalidRecords = length errs,
                                  errors = errs \<rparr>)))"

text \<open>
  \<^verbatim>\<open>parseCSV\<close> after the CSV parser has run: \<open>parsed\<close> is what the parser
  returned or threw.  Every error is thrown again with a prefix.
\<close>

definition message :: "jsError \<Rightarrow> string" where
  "message err = (case err of Error m \<Rightarrow> m | TypeError m \<Rightarrow> m)"

definition parseCSV :: "dateLib \<Rightarrow> jsError + rawRecord list \<Rightarrow> jsError + parseResult" where
  "parseCSV lib parsed =
     (case parsed of
        Inl err \<Rightarrow> Inl (Error (''CSV parsing failed: '' @ message err))
      | Inr records \<Rightarrow>
          (case validateAndNormalize lib records of
             Inl err \<Rightarrow> Inl (Error (''CSV parsing failed: '' @ message err))
           | Inr result \<Rightarrow> Inr result))"

subsection \<open>Example rows\<close>

text \<open>
  A date library for the examples, on a host whose local time is UTC, with the calendar
  days and the local timestamps that the example rows use.  4 March 2024 is a Monday,
  19786 days after the epoch.
\<close>

definition exampleLib :: dateLib where
  "exampleLib =
     \<lparr> parseDate = (\<lambda>s. case map_of [(''2024-03-04'', 19786 * 86400000),
                                        (''2024-03-05'', 19787 * 86400000),
                                        (''2024-03-09'', 19791 * 86400000)] s of
                            Some t \<Rightarrow> Date t | None \<Rightarrow> InvalidDate),
       isWeekend = (\<lambda>t. (t div 86400000 + 4) mod 7 = 0 \<or> (t div 86400000 + 4) mod 7 = 6),
       newDate = (\<lambda>s. case map_of [(''2024-03-04T00:00:00'', 19786 * 86400000),
                                      (''2024-03-01T09:00:00'', 19783 * 86400000 + 9 * 3600000),
                                      (''2024-03-04T08:30:00'', 19786 * 86400000 + 8 * 3600000 + 1800000),
                                      (''2024-03-06T09:00:00'', 19788 * 86400000 + 9 * 3600000)] s of
                          Some t \<Rightarrow> Date t | None \<Rightarrow> InvalidDate) \<rparr>"

definition mkRow :: "string \<Rightarrow> string \<Rightarrow> string \<Rightarrow> string \<Rightarrow> string \<Rightarrow> string \<Rightarrow> string \<Rightarrow> rawRecord" where
  "mkRow ident ename dt st informed dept mail =
     [(''employee_id'', ident), (''employee_name'', ename), (''date'', dt), (''status'', st),
      (''informed_time'', informed), (''department'', dept), (''manager_email'', mail)]"

subsection \<open>The outcome of the row loop, row by row\<close>

text \<open>
  What the properties below say about the rows of a file, by position: row \<open>i\<close> repeats an
  earlier key; the messages row \<open>i\<close> receives; the entries for the rows from \<open>k\<close> on; and
  the rows from \<open>k\<close> on that receive no message.
\<close>

definition duplicateAt :: "rawRecord list \<Rightarrow> nat \<Rightarrow> bool" where
  "duplicateAt records i = (rowKey (records ! i) \<in> set (map rowKey (take i records)))"

definition rowErrorsAt :: "dateLib \<Rightarrow> rawRecord list \<Rightarrow> nat \<Rightarrow> string list" where
  "rowErrorsAt lib records i =
     fieldErrors lib (records ! i)
     @ (if duplicateAt records i then [''duplicate employee_id + date combination''] else [])"

definition rowReportsFrom :: "dateLib \<Rightarrow> rawRecord list \<Rightarrow> nat \<Rightarrow> validationError list" where
  "rowReportsFrom lib records k =
     map (\<lambda>i. RowError (i + 2) (rowErrorsAt lib records i))
       (filter (\<lambda>i. rowErrorsAt lib records i \<noteq> []) [k ..< length records])"

definition acceptedFrom :: "dateLib \<Rightarrow> rawRecord list \<Rightarrow> nat \<Rightarrow> rawRecord list" where
  "acceptedFrom lib records k =
     map (\<lambda>i. records ! i) (filter (\<lambda>i. rowErrorsAt lib records i = []) [k ..< length records])"

definition validCount :: "attendanceRecord list \<Rightarrow> string \<Rightarrow> nat" where
  "validCount vs empId = length (filter (\<lambda>r. rec_employeeId r = empId) vs)"

text \<open>
  The composite key of a row as a pair, the cells \<^verbatim>\<open>employee_id\<close> and
  \<^verbatim>\<open>date\<close>; the same pair on a normalised record; and a row whose pair occurred in
  an earlier row.  The source compares the two cells joined by an underscore, \<open>rowKey\<close>.
\<close>

definition pairKey :: "rawRecord \<Rightarrow> string option \<times> string option" where
  "pairKey record = (field record ''employee_id'', field record ''date'')"



text \<open>
  Rows of employee E7 on 4 March 2024 (a valid row, a second row with the same key, a row
  with a malformed e-mail address) and on 5 March; a planned leave whose informed time is
  the midnight that starts the leave date; a valid row of an employee named like a
  property of \<^verbatim>\<open>Object.prototype\<close>; two rows with different cells whose joined
  keys are equal; and a row of E7 on 4 March with a space before the employee id.
\<close>

definition rowGood :: rawRecord where
  "rowGood = mkRow ''E7'' ''Eve'' ''2024-03-04'' ''Present'' [] ''Ops'' ''Boss@Example.com''"

definition rowAgain :: rawRecord where
  "rowAgain = mkRow ''E7'' ''Eve'' ''2024-03-04'' ''Absent'' [] ''Ops'' ''boss@example.com''"

definition rowBadEmail :: rawRecord where
  "rowBadEmail = mkRow ''E7'' ''Eve'' ''2024-03-04'' ''Present'' [] ''Ops'' ''boss-at-example''"

definition rowPlannedSameInstant :: rawRecord where
  "rowPlannedSameInstant =
     mkRow ''10'' ''Dan'' ''2024-03-04'' ''Planned Leave'' ''2024-03-04T00:00:00'' ''Ops'' ''boss@example.com''"

definition rowConstructor :: rawRecord where
  "rowConstructor = mkRow ''constructor'' ''Eve'' ''2024-03-04'' ''Present'' [] ''Ops'' ''boss@example.com''"

definition rowNextDay :: rawRecord where
  "rowNextDay = mkRow ''E7'' ''Eve'' ''2024-03-05'' ''Present'' [] ''Ops'' ''boss@example.com''"

definition rowJoinedA :: rawRecord where
  "rowJoinedA = mkRow ''E7'' ''Eve'' ''9_2024-03-04'' ''Present'' [] ''Ops'' ''boss@example.com''"

definition rowJoinedB :: rawRecord where
  "rowJoinedB = mkRow ''E7_9'' ''Eve'' ''2024-03-04'' ''Present'' [] ''Ops'' ''boss@example.com''"

definition rowPadded :: rawRecord where
  "rowPadded = mkRow '' E7'' ''Eve'' ''2024-03-04'' ''Absent'' [] ''Ops'' ''boss@example.com''"

section \<open>Properties of the sub-scores\<close>


lemma absentRate_le_one: "absentRate records \<le> 1"
proof -
  have "length (filter (\<lambda>r. att_status r = ''Absent'') records) \<le> length records"
    by (rule length_filter_le)
  then have "real (length (filter (\<lambda>r. att_status r = ''Absent'') records)) \<le> real (length records)"
    by simp
  then show ?thesis
    unfolding absentRate_def by (simp add: divide_le_eq_1)
qed


lemma absenteeismBands_ramp: "rate < 0.05 \<Longrightarrow> absenteeismBands rate = rate * 800"
  by (simp add: absenteeismBands_def)



lemma day_simps [simp]: "att_status (day d s) = s" "att_date (day d s) = d * 86400000"
  by (simp_all add: day_def)











section \<open>Double-precision rounding\<close>

text \<open>
  \<open>exponent\<close> brackets its argument between two powers of two, and \<open>fl\<close> at a positive
  argument \<open>x\<close> is determined by a significand: with \<open>2^52 \<le> x * 2^k < 2^53\<close>, \<open>fl x\<close> is
  the integer nearest to \<open>x * 2^k\<close>, the even one at a tie, divided by \<open>2^k\<close>.
\<close>

lemma exponent_bounds:
  assumes "0 < x"
  shows "2 powi exponent x \<le> x \<and> x < 2 powi (exponent x + 1)"
proof (cases "1 \<le> x")
  case True
  let ?n = "\<lfloor>x\<rfloor>"
  let ?b = "bitlen ?n"
  have n: "0 < ?n" using True by simp
  from bitlen_bounds [OF n] have lo: "2 ^ nat (?b - 1) \<le> ?n" and hi: "?n < 2 ^ nat ?b"
    by simp_all
  have b: "1 \<le> ?b"
    using n by (simp add: bitlen_alt_def)
  have "2 powi (?b - 1) = (2::real) ^ nat (?b - 1)"
    using b by (simp add: power_int_def)
  also have "\<dots> = of_int (2 ^ nat (?b - 1))" by simp
  also have "\<dots> \<le> of_int ?n" using lo by (simp only: of_int_le_iff)
  also have "\<dots> \<le> x" by simp
  finally have 1: "2 powi (?b - 1) \<le> x" .
  from hi have "?n + 1 \<le> 2 ^ nat ?b" by simp
  then have "of_int (?n + 1) \<le> (of_int (2 ^ nat ?b) :: real)" by (simp only: of_int_le_iff)
  then have A: "real_of_int ?n + 1 \<le> 2 ^ nat ?b" by simp
  have B: "x < real_of_int ?n + 1" by linarith
  from A B have "x < (2::real) ^ nat ?b" by linarith
  also have "\<dots> = 2 powi ?b" using b by (simp add: power_int_def)
  finally have 2: "x < 2 powi ?b" .
  from 1 2 True show ?thesis by (simp add: exponent_def)
next
  case False
  let ?m = "\<lceil>1 / x\<rceil> - 1"
  let ?k = "bitlen ?m"
  from False assms have "1 < 1 / x" by simp
  then have m: "0 < ?m" by linarith
  from bitlen_bounds [OF m] have lo: "2 ^ nat (?k - 1) \<le> ?m" and hi: "?m < 2 ^ nat ?k"
    by simp_all
  have k: "1 \<le> ?k"
    using m by (simp add: bitlen_alt_def)
  have pw: "(2::real) powi j = 2 ^ nat j" if "0 \<le> j" for j
    using that by (simp add: power_int_def)
  have "(2::real) powi (- ?k) = 1 / 2 powi ?k"
    by (rule power_int_minus_divide)
  also have "\<dots> = 1 / 2 ^ nat ?k"
    using k by (simp only: pw)
  finally have p: "(2::real) powi (- ?k) = 1 / 2 ^ nat ?k" .
  have "(2::real) powi (- ?k + 1) = 2 powi (- (?k - 1))"
    by simp
  also have "\<dots> = 1 / 2 powi (?k - 1)"
    by (rule power_int_minus_divide)
  also have "\<dots> = 1 / 2 ^ nat (?k - 1)"
    using k by (simp only: pw)
  finally have q: "(2::real) powi (- ?k + 1) = 1 / 2 ^ nat (?k - 1)" .
  from hi have "?m + 1 \<le> 2 ^ nat ?k" by simp
  then have "of_int (?m + 1) \<le> (of_int (2 ^ nat ?k) :: real)" by (simp only: of_int_le_iff)
  then have A: "real_of_int ?m + 1 \<le> 2 ^ nat ?k" by simp
  have B: "1 / x \<le> real_of_int ?m + 1" by simp
  from A B have "1 / x \<le> 2 ^ nat ?k" by linarith
  then have 1: "1 / 2 ^ nat ?k \<le> x"
    using assms by (simp add: field_simps)
  from lo have "(of_int (2 ^ nat (?k - 1)) :: real) \<le> of_int ?m" by (simp only: of_int_le_iff)
  then have C: "2 ^ nat (?k - 1) \<le> real_of_int ?m" by simp
  have D: "real_of_int ?m < 1 / x" by linarith
  from C D have "2 ^ nat (?k - 1) < 1 / x" by linarith
  then have 2: "x < 1 / 2 ^ nat (?k - 1)"
    using assms by (simp add: field_simps)
  have ex: "exponent x = - ?k" using False by (simp add: exponent_def)
  from 1 2 show ?thesis unfolding ex p q by simp
qed

lemma exponent_eqI:
  assumes "0 < x" and "2 powi k \<le> x" and "x < 2 powi (k + 1)"
  shows "exponent x = k"
proof -
  from exponent_bounds [OF assms(1)]
  have lo: "2 powi exponent x \<le> x" and hi: "x < 2 powi (exponent x + 1)" by simp_all
  have "k < exponent x + 1"
  proof (rule ccontr)
    assume "\<not> k < exponent x + 1"
    then have "exponent x + 1 \<le> k" by simp
    then have "(2::real) powi (exponent x + 1) \<le> 2 powi k"
      by (rule power_int_increasing) simp
    with hi assms(2) show False by linarith
  qed
  moreover have "exponent x < k + 1"
  proof (rule ccontr)
    assume "\<not> exponent x < k + 1"
    then have "k + 1 \<le> exponent x" by simp
    then have "(2::real) powi (k + 1) \<le> 2 powi exponent x"
      by (rule power_int_increasing) simp
    with lo assms(3) show False by linarith
  qed
  ultimately show ?thesis by simp
qed

lemma roundEven_eqI:
  assumes "\<bar>y - of_int n\<bar> < 1 / 2"
  shows "roundEven y = n"
proof (cases "of_int n \<le> y")
  case True
  with assms have "\<lfloor>y\<rfloor> = n" by (intro floor_unique) linarith+
  with assms True show ?thesis by (simp add: roundEven_def Let_def)
next
  case False
  from assms False have "of_int (n - 1) \<le> y" and "y < of_int (n - 1) + 1"
    by (simp; linarith)+
  then have f: "\<lfloor>y\<rfloor> = n - 1" by (rule floor_unique)
  from assms False have "1 / 2 < y - of_int (n - 1)" by (simp; linarith)
  with f show ?thesis by (simp add: roundEven_def Let_def)
qed

lemma roundEven_of_int [simp]: "roundEven (of_int n) = n"
  by (rule roundEven_eqI) simp

lemma roundEven_ge:
  assumes "of_int a \<le> y"
  shows "a \<le> roundEven y"
proof -
  from assms have "a \<le> \<lfloor>y\<rfloor>" by (simp add: le_floor_iff)
  then show ?thesis by (simp add: roundEven_def Let_def)
qed

lemma roundEven_le:
  assumes "y \<le> of_int b"
  shows "roundEven y \<le> b"
proof (cases "y = of_int \<lfloor>y\<rfloor>")
  case True
  then have "roundEven y = \<lfloor>y\<rfloor>" by (metis roundEven_of_int)
  with assms show ?thesis by (simp add: floor_le_iff)
next
  case False
  moreover have "of_int \<lfloor>y\<rfloor> \<le> y" by (rule of_int_floor_le)
  ultimately have "of_int \<lfloor>y\<rfloor> < y" by linarith
  with assms have "of_int \<lfloor>y\<rfloor> < (of_int b :: real)" by linarith
  then have "\<lfloor>y\<rfloor> < b" by (simp only: of_int_less_iff)
  then show ?thesis by (simp add: roundEven_def Let_def)
qed

lemma roundEven_tie:
  assumes "y = of_int m + 1 / 2"
  shows "roundEven y = (if even m then m else m + 1)"
proof -
  have "\<lfloor>y\<rfloor> = m"
    unfolding assms by (simp add: floor_eq_iff)
  then show ?thesis
    by (simp add: roundEven_def Let_def assms)
qed

lemma fl_0 [simp]: "fl 0 = 0"
  by (simp add: fl_def)

lemma fl_minus: "fl (- x) = - fl x"
  by (simp add: fl_def Let_def sgn_minus)

lemma fl_normal:
  assumes "0 < x" and "2 ^ 52 \<le> x * 2 ^ k" and "x * 2 ^ k < 2 ^ 53"
  shows "fl x = of_int (roundEven (x * 2 ^ k)) / 2 ^ k"
proof -
  let ?e = "52 - int k"
  have pk: "(2::real) powi (- int k) = 1 / 2 ^ k"
    by (simp add: power_int_minus_divide)
  have "(2::real) powi ?e = 2 powi 52 * 2 powi (- int k)"
    using power_int_add [of "2::real" 52 "- int k"] by simp
  then have e: "(2::real) powi ?e = 2 ^ 52 / 2 ^ k"
    by (simp add: pk)
  have "(2::real) powi (53 - int k) = 2 powi 53 * 2 powi (- int k)"
    using power_int_add [of "2::real" 53 "- int k"] by simp
  then have e1: "(2::real) powi (53 - int k) = 2 ^ 53 / 2 ^ k"
    by (simp add: pk)
  have e1': "?e + 1 = 53 - int k" by simp
  have "2 powi ?e \<le> x" using assms(2) by (simp add: e field_simps)
  moreover have "x < 2 powi (?e + 1)" using assms(3) unfolding e1' e1 by (simp add: field_simps)
  ultimately have "exponent x = ?e"
    using assms(1) by (intro exponent_eqI)
  then have "exponent \<bar>x\<bar> - 52 = - int k" using assms(1) by simp
  then show ?thesis
    using assms(1) by (simp add: fl_def Let_def pk)
qed

lemma fl_eqI:
  assumes "0 < x" and "2 ^ 52 \<le> x * 2 ^ k" and "\<bar>x * 2 ^ k - of_int n\<bar> < 1 / 2"
    and "n < 2 ^ 53"
  shows "fl x = of_int n / 2 ^ k"
proof -
  from assms(4) have "n + 1 \<le> 2 ^ 53" by simp
  then have "(of_int (n + 1) :: real) \<le> of_int (2 ^ 53)" by (simp only: of_int_le_iff)
  then have "real_of_int n + 1 \<le> 2 ^ 53" by simp
  with assms(3) have "x * 2 ^ k < 2 ^ 53" by linarith
  from fl_normal [OF assms(1,2) this] roundEven_eqI [OF assms(3)] show ?thesis by simp
qed

lemma fl_tieI:
  assumes "0 < x" and "2 ^ 52 \<le> x * 2 ^ k" and "x * 2 ^ k = of_int m + 1 / 2"
    and "n = (if even m then m else m + 1)" and "m + 1 < 2 ^ 53"
  shows "fl x = of_int n / 2 ^ k"
proof -
  have "x * 2 ^ k < of_int (m + 1)"
    unfolding assms(3) by simp
  also have "\<dots> < 2 ^ 53"
    using assms(5) by (metis of_int_less_numeral_power_cancel_iff)
  finally have "x * 2 ^ k < 2 ^ 53" .
  from fl_normal [OF assms(1) assms(2) this] roundEven_tie [OF assms(3)] assms(4)
  show ?thesis by simp
qed

lemma fl_sqrt_eqI:
  assumes "0 < v" and "(2 ^ 52)\<^sup>2 \<le> v * 4 ^ k"
    and "(of_int n - 1 / 2)\<^sup>2 < v * 4 ^ k" and "v * 4 ^ k < (of_int n + 1 / 2)\<^sup>2"
    and "0 < n" and "n < 2 ^ 53"
  shows "fl (sqrt v) = of_int n / 2 ^ k"
proof -
  have s: "sqrt v * 2 ^ k = sqrt (v * 4 ^ k)"
  proof -
    have "(4::real) ^ k = (2 ^ k)\<^sup>2" by (simp add: power_even_eq power2_eq_square flip: power_mult_distrib)
    then show ?thesis by (simp add: real_sqrt_mult)
  qed
  have 1: "0 < sqrt v" using assms(1) by simp
  have "sqrt ((2 ^ 52)\<^sup>2) \<le> sqrt (v * 4 ^ k)" using assms(2) by (simp only: real_sqrt_le_iff)
  then have 2: "2 ^ 52 \<le> sqrt v * 2 ^ k" by (simp add: s)
  have pos: "0 \<le> real_of_int n - 1 / 2" using assms(5) by linarith
  have "sqrt ((of_int n - 1 / 2)\<^sup>2) < sqrt (v * 4 ^ k)" using assms(3) by (simp only: real_sqrt_less_iff)
  then have lo: "of_int n - 1 / 2 < sqrt v * 2 ^ k" using pos by (simp add: s)
  have "sqrt (v * 4 ^ k) < sqrt ((of_int n + 1 / 2)\<^sup>2)" using assms(4) by (simp only: real_sqrt_less_iff)
  then have hi: "sqrt v * 2 ^ k < of_int n + 1 / 2" using assms(5) by (simp add: s)
  from lo hi have 3: "\<bar>sqrt v * 2 ^ k - of_int n\<bar> < 1 / 2" by linarith
  from fl_eqI [OF 1 2 3 assms(6)] show ?thesis .
qed

text \<open>Rounding keeps the sign and does not cross an integer.\<close>

lemma fl_nonneg:
  assumes "0 \<le> x"
  shows "0 \<le> fl x"
proof (cases "x = 0")
  case True
  then show ?thesis by simp
next
  case False
  with assms have x: "0 < x" by simp
  let ?e = "exponent x - 52"
  have p: "(0::real) < 2 powi ?e"
    by (simp add: zero_less_power_int)
  then have "of_int 0 \<le> x / 2 powi ?e"
    using x by simp
  from roundEven_ge [OF this] have "0 \<le> real_of_int (roundEven (x / 2 powi ?e))"
    by simp
  with p have "0 \<le> real_of_int (roundEven (x / 2 powi ?e)) * 2 powi ?e"
    by simp
  then show ?thesis
    using x by (simp add: fl_def Let_def)
qed

lemma fl_le_of_int:
  assumes "0 \<le> x" and "x \<le> of_int b" and "x < 2 ^ 53"
  shows "fl x \<le> of_int b"
proof (cases "x = 0")
  case True
  with assms(2) show ?thesis by simp
next
  case False
  with assms(1) have x: "0 < x" by simp
  have "exponent x < 53"
  proof (rule ccontr)
    assume "\<not> exponent x < 53"
    then have "53 \<le> exponent x" by simp
    then have "(2::real) powi 53 \<le> 2 powi exponent x"
      by (rule power_int_increasing) simp
    with exponent_bounds [OF x] assms(3) show False by simp
  qed
  define m where "m = nat (52 - exponent x)"
  have m: "exponent x - 52 = - int m"
    using \<open>exponent x < 53\<close> by (simp add: m_def)
  have pm: "(2::real) powi (- int m) = 1 / 2 ^ m"
    by (simp add: power_int_minus_divide)
  have f: "fl x = of_int (roundEven (x * 2 ^ m)) / 2 ^ m"
    using x by (simp add: fl_def Let_def m pm)
  have "x * 2 ^ m \<le> of_int (b * 2 ^ m)"
    using assms(2) by simp
  from roundEven_le [OF this] have "real_of_int (roundEven (x * 2 ^ m)) \<le> of_int (b * 2 ^ m)"
    by (simp only: of_int_le_iff)
  then show ?thesis
    unfolding f by (simp add: field_simps)
qed

lemma fl_sum_le:
  assumes "0 \<le> x" and "0 \<le> y" and "x \<le> of_int a" and "y \<le> of_int b" and "a + b < 2 ^ 53"
  shows "0 \<le> fl (x + y) \<and> fl (x + y) \<le> of_int (a + b)"
proof
  show "0 \<le> fl (x + y)"
    by (rule fl_nonneg) (use assms in simp)
  have "real_of_int (a + b) < 2 ^ 53"
    using assms(5) by (metis of_int_less_numeral_power_cancel_iff)
  then show "fl (x + y) \<le> of_int (a + b)"
    by (intro fl_le_of_int) (use assms in simp_all)
qed

lemma fl_70: "fl 70 = 70"
  using fl_eqI [of 70 46 "70 * 2 ^ 46"] by simp

text \<open>
  The roundings of the decimal literals of the source, and those that occur in the
  examples below.
\<close>

lemma fl_value_1: "fl (1 / 20) = 3602879701896397 / 72057594037927936"
  using fl_eqI [of "1 / 20" 57 7205759403792794] by simp

lemma fl_value_2: "fl (1 / 10) = 3602879701896397 / 36028797018963968"
  using fl_eqI [of "1 / 10" 56 7205759403792794] by simp

lemma fl_value_3: "fl (3 / 20) = 5404319552844595 / 36028797018963968"
  using fl_eqI [of "3 / 20" 55 5404319552844595] by simp

lemma fl_value_4: "fl (1 / 5) = 3602879701896397 / 18014398509481984"
  using fl_eqI [of "1 / 5" 55 7205759403792794] by simp

lemma fl_value_5: "fl (7 / 20) = 3152519739159347 / 9007199254740992"
  using fl_eqI [of "7 / 20" 54 6305039478318694] by simp

lemma fl_value_6: "fl (1 / 4) = 1 / 4"
  using fl_eqI [of "1 / 4" 54 4503599627370496] by simp

lemma fl_value_7: "fl (4 / 5) = 3602879701896397 / 4503599627370496"
  using fl_eqI [of "4 / 5" 53 7205759403792794] by simp

lemma fl_value_8: "fl (3 / 5) = 5404319552844595 / 9007199254740992"
  using fl_eqI [of "3 / 5" 53 5404319552844595] by simp

lemma fl_value_9: "fl (2 / 5) = 3602879701896397 / 9007199254740992"
  using fl_eqI [of "2 / 5" 54 7205759403792794] by simp

lemma fl_value_10: "fl (90071992547409925 / 2251799813685248) = 40"
  using fl_eqI [of "90071992547409925 / 2251799813685248" 47 5629499534213120] by simp

lemma fl_value_11: "fl (4 / 11) = 3275345183542179 / 9007199254740992"
  using fl_eqI [of "4 / 11" 54 6550690367084358] by simp

lemma fl_value_12: "fl (1) = 1"
  using fl_eqI [of "1" 52 4503599627370496] by simp

lemma fl_value_13: "fl (3602879701896397 / 18014398509481984) = 3602879701896397 / 18014398509481984"
  using fl_eqI [of "3602879701896397 / 18014398509481984" 55 7205759403792794] by simp

lemma fl_value_14: "fl (14411518807585587 / 18014398509481984) = 3602879701896397 / 4503599627370496"
  using fl_tieI [of "14411518807585587 / 18014398509481984" 53 7205759403792793 7205759403792794] by simp

lemma fl_value_15: "fl (3602879701896397 / 4503599627370496) = 3602879701896397 / 4503599627370496"
  using fl_eqI [of "3602879701896397 / 4503599627370496" 53 7205759403792794] by simp

lemma fl_value_16: "fl (3602879701896397 / 13510798882111488) = 4803839602528529 / 18014398509481984"
  using fl_eqI [of "3602879701896397 / 13510798882111488" 54 4803839602528529] by simp

lemma fl_value_17: "fl (300239975158033 / 4503599627370496) = 300239975158033 / 4503599627370496"
  using fl_eqI [of "300239975158033 / 4503599627370496" 56 4803839602528528] by simp

lemma fl_value_18: "fl (90144042682896272963324429089 / 20282409603651670423947251286016) = 5124095576030429 / 1152921504606846976"
  using fl_eqI [of "90144042682896272963324429089 / 20282409603651670423947251286016" 60 5124095576030429] by simp

lemma fl_value_19: "fl (5124095576030429 / 1152921504606846976) = 5124095576030429 / 1152921504606846976"
  using fl_eqI [of "5124095576030429 / 1152921504606846976" 60 5124095576030429] by simp

lemma fl_value_20: "fl (6004799503160661 / 18014398509481984) = 6004799503160661 / 18014398509481984"
  using fl_eqI [of "6004799503160661 / 18014398509481984" 54 6004799503160661] by simp

lemma fl_value_21: "fl (36057617073158521194928777956921 / 324518553658426726783156020576256) = 2001599834386887 / 18014398509481984"
  using fl_eqI [of "36057617073158521194928777956921 / 324518553658426726783156020576256" 56 8006399337547548] by simp

lemma fl_value_22: "fl (133226484976791197 / 1152921504606846976) = 4163327655524725 / 36028797018963968"
  using fl_eqI [of "133226484976791197 / 1152921504606846976" 56 8326655311049450] by simp

lemma fl_value_23: "fl (4803839602528529 / 18014398509481984) = 4803839602528529 / 18014398509481984"
  using fl_eqI [of "4803839602528529 / 18014398509481984" 54 4803839602528529] by simp

lemma fl_value_24: "fl (23076874926821455486290258903841 / 324518553658426726783156020576256) = 5124095576030431 / 72057594037927936"
  using fl_eqI [of "23076874926821455486290258903841 / 324518553658426726783156020576256" 56 5124095576030431] by simp

lemma fl_value_25: "fl (13450750887079881 / 72057594037927936) = 1681343860884985 / 9007199254740992"
  using fl_tieI [of "13450750887079881 / 72057594037927936" 55 6725375443539940 6725375443539940] by simp

lemma fl_value_26: "fl (1681343860884985 / 27021597764222976) = 8967167258053253 / 144115188075855872"
  using fl_eqI [of "1681343860884985 / 27021597764222976" 57 8967167258053253] by simp

lemma fl_value_27: "fl (sqrt (8967167258053253 / 144115188075855872)) = 1123395120854879 / 4503599627370496"
  using fl_sqrt_eqI [of "8967167258053253 / 144115188075855872" 55 8987160966839032] by (simp add: power2_eq_square)

lemma fl_value_28: "fl (28084878021371975 / 562949953421312) = 3510609752671497 / 70368744177664"
  using fl_eqI [of "28084878021371975 / 562949953421312" 47 7021219505342994] by simp

lemma fl_value_29: "fl (78812993478983675 / 2251799813685248) = 35"
  using fl_eqI [of "78812993478983675 / 2251799813685248" 47 4925812092436480] by simp

lemma fl_value_30: "fl (45 / 2) = 45 / 2"
  using fl_eqI [of "45 / 2" 48 6333186975989760] by simp

lemma fl_value_31: "fl (115 / 2) = 115 / 2"
  using fl_eqI [of "115 / 2" 47 8092405580431360] by simp

lemma fl_value_32: "fl (3510609752671497 / 281474976710656) = 3510609752671497 / 281474976710656"
  using fl_eqI [of "3510609752671497 / 281474976710656" 49 7021219505342994] by simp

lemma fl_value_33: "fl (19695420913534217 / 281474976710656) = 2461927614191777 / 35184372088832"
  using fl_eqI [of "19695420913534217 / 281474976710656" 46 4923855228383554] by simp

lemma fl_value_34: "fl (2461927614191777 / 35184372088832) = 2461927614191777 / 35184372088832"
  using fl_eqI [of "2461927614191777 / 35184372088832" 46 4923855228383554] by simp

lemma fl_value_35: "fl (12309638070958885 / 17592186044416) = 3077409517739721 / 4398046511104"
  using fl_tieI [of "12309638070958885 / 17592186044416" 43 6154819035479442 6154819035479442] by simp

lemma fl_value_36: "fl (70) = 70"
  using fl_eqI [of "70" 46 4925812092436480] by simp

lemma fl_value_37: "fl (4 / 15) = 4803839602528529 / 18014398509481984"
  using fl_eqI [of "4 / 15" 54 4803839602528529] by simp

lemma fl_value_38: "fl (1 / 2) = 1 / 2"
  using fl_eqI [of "1 / 2" 53 4503599627370496] by simp

lemma fl_value_39: "fl (900719925474099 / 9007199254740992) = 900719925474099 / 9007199254740992"
  using fl_eqI [of "900719925474099 / 9007199254740992" 56 7205759403792792] by simp

lemma fl_value_40: "fl (1 / 3) = 6004799503160661 / 18014398509481984"
  using fl_eqI [of "1 / 3" 54 6004799503160661] by simp

lemmas fl_values = fl_value_1 fl_value_2 fl_value_3 fl_value_4 fl_value_5 fl_value_6 fl_value_7 fl_value_8 fl_value_9 fl_value_10 fl_value_11 fl_value_12 fl_value_13 fl_value_14 fl_value_15 fl_value_16 fl_value_17 fl_value_18 fl_value_19 fl_value_20 fl_value_21 fl_value_22 fl_value_23 fl_value_24 fl_value_25 fl_value_26 fl_value_27 fl_value_28 fl_value_29 fl_value_30 fl_value_31 fl_value_32 fl_value_33 fl_value_34 fl_value_35 fl_value_36 fl_value_37 fl_value_38 fl_value_39 fl_value_40

lemmas fl_thresholds = fl_value_1 fl_value_2 fl_value_3 fl_value_4 fl_value_5 fl_value_6
  fl_value_7 fl_value_8 fl_value_9

section \<open>The sub-scores in double precision\<close>

text \<open>
  The values the source computes lie in the same range: each of the four sub-scores and
  the weighted sum are between 0 and 100 in double precision as well.
\<close>

lemma absentRate64_nonneg: "0 \<le> absentRate64 records"
  unfolding absentRate64_def by (rule fl_nonneg) simp

lemma absenteeism64_range:
  "0 \<le> calculateAbsenteeismScore64 records \<and> calculateAbsenteeismScore64 records \<le> 100"
proof -
  let ?r = "absentRate64 records"
  have n: "0 \<le> ?r" by (rule absentRate64_nonneg)
  have "fl (?r * 800) \<le> of_int 100" if "?r < fl 0.05"
    by (rule fl_le_of_int) (use n that in \<open>simp_all add: fl_thresholds\<close>)
  moreover have "0 \<le> fl (?r * 800)"
    by (rule fl_nonneg) (use n in simp)
  ultimately show ?thesis
    by (simp add: calculateAbsenteeismScore64_def Let_def)
qed

lemma leavePattern64_range:
  "0 \<le> calculateLeavePatternScore64 records \<and> calculateLeavePatternScore64 records \<le> 100"
proof -
  let ?u = "real (length (filter (\<lambda>r. att_status r = ''Unplanned Leave'') records))"
  let ?t = "real (length (filter (\<lambda>r. att_status r = ''Planned Leave''
                                           \<or> att_status r = ''Unplanned Leave'') records))"
  let ?r = "fl (?u / ?t)"
  have n: "0 \<le> ?r" by (rule fl_nonneg) simp
  have "fl (?r * 100) \<le> of_int 100" if "?r < fl 0.20"
    by (rule fl_le_of_int) (use n that in \<open>simp_all add: fl_thresholds\<close>)
  moreover have "0 \<le> fl (?r * 100)"
    by (rule fl_nonneg) (use n in simp)
  ultimately show ?thesis
    by (simp add: calculateLeavePatternScore64_def Let_def)
qed

lemma foldl_fl_squares_nonneg:
  "0 \<le> a \<Longrightarrow> 0 \<le> foldl (\<lambda>sum rate. fl (sum + fl (fl (rate - m) * fl (rate - m)))) a xs"
proof (induction xs arbitrary: a)
  case Nil
  then show ?case by simp
next
  case (Cons x xs)
  have "0 \<le> fl (fl (x - m) * fl (x - m))"
    by (rule fl_nonneg) simp
  with Cons.prems have "0 \<le> fl (a + fl (fl (x - m) * fl (x - m)))"
    by (intro fl_nonneg) simp
  from Cons.IH [OF this] show ?case by simp
qed

lemma consistency64_range:
  "0 \<le> calculateConsistencyScore64 records \<and> calculateConsistencyScore64 records \<le> 100"
proof -
  let ?w = "weeklyRatesLoop64 records [] []"
  let ?m = "fl (foldl (\<lambda>a b. fl (a + b)) 0 ?w / real (length ?w))"
  let ?v = "fl (foldl (\<lambda>sum rate. fl (sum + fl (fl (rate - ?m) * fl (rate - ?m)))) 0 ?w
                 / real (length ?w))"
  have "0 \<le> foldl (\<lambda>sum rate. fl (sum + fl (fl (rate - ?m) * fl (rate - ?m)))) 0 ?w"
    by (rule foldl_fl_squares_nonneg) simp
  then have "0 \<le> ?v"
    by (intro fl_nonneg) simp
  then have "0 \<le> fl (sqrt ?v)"
    by (intro fl_nonneg) simp
  then have "0 \<le> fl (fl (sqrt ?v) * 200)"
    by (intro fl_nonneg) simp
  then show ?thesis
    by (simp add: calculateConsistencyScore64_def Let_def)
qed

lemma recentTrend64_range:
  "0 \<le> calculateRecentTrendScore64 records \<and> calculateRecentTrendScore64 records \<le> 100"
proof -
  let ?t = "fl (absentRate64 (recentRecords records) - absentRate64 (previousRecords records))"
  have "fl (?t * 500) \<le> of_int 100" if "0 < ?t" "?t < fl 0.05"
    by (rule fl_le_of_int) (use that in \<open>simp_all add: fl_thresholds\<close>)
  moreover have "0 \<le> fl (?t * 500)" if "0 < ?t"
    by (rule fl_nonneg) (use that in simp)
  ultimately show ?thesis
    by (simp add: calculateRecentTrendScore64_def Let_def)
qed

lemma composite64_range:
  "0 \<le> compositeScore64 records \<and> compositeScore64 records \<le> 100"
proof -
  let ?a = "calculateAbsenteeismScore64 records" and ?l = "calculateLeavePatternScore64 records"
  let ?c = "calculateConsistencyScore64 records" and ?t = "calculateRecentTrendScore64 records"
  note ar = absenteeism64_range [of records] and lr = leavePattern64_range [of records]
    and cr = consistency64_range [of records] and tr = recentTrend64_range [of records]
  have a: "0 \<le> fl (?a * fl 0.35)" "fl (?a * fl 0.35) \<le> of_int 35"
  proof -
    show "0 \<le> fl (?a * fl 0.35)"
      by (rule fl_nonneg) (use ar in \<open>simp add: fl_thresholds\<close>)
    show "fl (?a * fl 0.35) \<le> of_int 35"
      by (rule fl_le_of_int) (use ar in \<open>simp_all add: fl_thresholds\<close>)
  qed
  have l: "0 \<le> fl (?l * fl 0.25)" "fl (?l * fl 0.25) \<le> of_int 25"
  proof -
    show "0 \<le> fl (?l * fl 0.25)"
      by (rule fl_nonneg) (use lr in \<open>simp add: fl_thresholds\<close>)
    show "fl (?l * fl 0.25) \<le> of_int 25"
      by (rule fl_le_of_int) (use lr in \<open>simp_all add: fl_thresholds\<close>)
  qed
  have c: "0 \<le> fl (?c * fl 0.25)" "fl (?c * fl 0.25) \<le> of_int 25"
  proof -
    show "0 \<le> fl (?c * fl 0.25)"
      by (rule fl_nonneg) (use cr in \<open>simp add: fl_thresholds\<close>)
    show "fl (?c * fl 0.25) \<le> of_int 25"
      by (rule fl_le_of_int) (use cr in \<open>simp_all add: fl_thresholds\<close>)
  qed
  have t: "0 \<le> fl (?t * fl 0.15)" "fl (?t * fl 0.15) \<le> of_int 15"
  proof -
    show "0 \<le> fl (?t * fl 0.15)"
      by (rule fl_nonneg) (use tr in \<open>simp add: fl_thresholds\<close>)
    show "fl (?t * fl 0.15) \<le> of_int 15"
      by (rule fl_le_of_int) (use tr in \<open>simp_all add: fl_thresholds\<close>)
  qed
  from fl_sum_le [OF a(1) l(1) a(2) l(2)]
  have s1: "0 \<le> fl (fl (?a * fl 0.35) + fl (?l * fl 0.25))"
    "fl (fl (?a * fl 0.35) + fl (?l * fl 0.25)) \<le> of_int (35 + 25)"
    by simp_all
  from fl_sum_le [OF s1(1) c(1) s1(2) c(2)]
  have s2: "0 \<le> fl (fl (fl (?a * fl 0.35) + fl (?l * fl 0.25)) + fl (?c * fl 0.25))"
    "fl (fl (fl (?a * fl 0.35) + fl (?l * fl 0.25)) + fl (?c * fl 0.25)) \<le> of_int (35 + 25 + 25)"
    by simp_all
  from fl_sum_le [OF s2(1) t(1) s2(2) t(2)]
  have s3: "0 \<le> fl (fl (fl (fl (?a * fl 0.35) + fl (?l * fl 0.25)) + fl (?c * fl 0.25)) + fl (?t * fl 0.15))"
    "fl (fl (fl (fl (?a * fl 0.35) + fl (?l * fl 0.25)) + fl (?c * fl 0.25)) + fl (?t * fl 0.15))
       \<le> of_int (35 + 25 + 25 + 15)"
    by simp_all
  then show ?thesis
    by (simp add: compositeScore64_def)
qed

text \<open>
  At the boundary of the ramp the two branches agree in double precision too: one
  absence in twenty records gives the rate \<open>fl 0.05\<close> and the score 40, and the ramp at
  that rate rounds to 40.
\<close>

lemma absenteeism64_boundary:
  "absentRate64 oneInTwenty = fl 0.05
   \<and> calculateAbsenteeismScore64 oneInTwenty = 40
   \<and> fl (fl 0.05 * 800) = 40
   \<and> calculateAbsenteeismScore64 allPresent = 0"
  by (simp add: calculateAbsenteeismScore64_def absentRate64_def oneInTwenty_def allPresent_def
      Let_def fl_values)

section \<open>The recent trend score\<close>







text \<open>With twenty records the previous window holds the first five.\<close>

lemma trend_trendExample: "calculateRecentTrendScore64 trendExample = 50"
  by (simp add: calculateRecentTrendScore64_def trendExample_def recentRecords_def previousRecords_def
      sliceFrom_def slice_def relIndex_def absentRate64_def Let_def fl_values fl_minus)

lemma trend_lateAbsences: "calculateRecentTrendScore64 lateAbsences = 50"
  by (simp add: calculateRecentTrendScore64_def lateAbsences_def recentRecords_def previousRecords_def
      sliceFrom_def slice_def relIndex_def absentRate64_def Let_def fl_values fl_minus)


text \<open>
  Rounding matters at the thresholds.  On the twenty-five records the exact rates are 3/5
  and 1/2, and the exact trend 1/10 reaches the threshold 0.10; the difference of the two
  doubles lies below the double nearest to 0.10, and the source returns 50.
\<close>

lemma trend_exact_and_double:
  "calculateRecentTrendScore lateAbsences = 75 \<and> calculateRecentTrendScore64 lateAbsences = 50"
proof -
  have "calculateRecentTrendScore lateAbsences = 75"
    by (simp add: calculateRecentTrendScore_def lateAbsences_def recentRecords_def
        previousRecords_def sliceFrom_def slice_def relIndex_def absentRate_def trendBands_def Let_def)
  with trend_lateAbsences show ?thesis by simp
qed

section \<open>Scoring one employee\<close>

text \<open>
  Claim C7.  When the store finds the employee and the windowed record sequence is empty,
  scoring returns (it does not throw) the assessment with risk level Insufficient Data,
  score 0, no factors, and the recommendation asking for at least 3 months of data; no
  sub-score enters the result.
\<close>

theorem empty_history_insufficient:
  assumes "findUnique db ident (setMonthBack clock (now clock) months) (now clock) = Some emp"
    and "emp_attendance emp = []"
  shows "calculateAttritionRisk clock db ident months =
           Inr \<lparr> employeeId = emp_employeeId emp, name = emp_name emp, email = None, score = 0,
                 riskLevel = InsufficientData, factorsOf = None, statisticsOf = None,
                 recommendation = ''Need at least 3 months of attendance data'' \<rparr>"
  using assms by (simp add: calculateAttritionRisk_def insufficientData_def)

lemma findUnique_newHire:
  "findUnique exampleDb ''1'' (setMonthBack exampleClock (now exampleClock) 3) (now exampleClock)
     = Some newHire"
  by (simp add: findUnique_def exampleDb_def newHire_def)

text \<open>C7 for the employee without attendance.\<close>

theorem empty_history_insufficient_witness:
  "findUnique exampleDb ''1'' (setMonthBack exampleClock (now exampleClock) 3) (now exampleClock)
     = Some newHire
   \<and> emp_attendance newHire = []
   \<and> calculateAttritionRisk exampleClock exampleDb ''1'' 3 =
           Inr \<lparr> employeeId = ''E1'', name = ''Ada'', email = None, score = 0,
                 riskLevel = InsufficientData, factorsOf = None, statisticsOf = None,
                 recommendation = ''Need at least 3 months of attendance data'' \<rparr>"
proof -
  have e: "emp_attendance newHire = []" by (simp add: newHire_def)
  show ?thesis
    using findUnique_newHire e empty_history_insufficient [OF findUnique_newHire e]
    by (simp add: newHire_def)
qed

lemma sorted_roundingExample: "sort_key att_date roundingExample = roundingExample"
  by (simp add: roundingExample_def)

lemma findUnique_borderline:
  "findUnique exampleDb ''2'' (setMonthBack exampleClock (now exampleClock) 3) (now exampleClock)
     = Some borderline"
proof -
  have "filter (\<lambda>a. 30 * 86400000 - 3 * 30 * 86400000 \<le> att_date a \<and> att_date a \<le> 30 * 86400000)
          roundingExample = roundingExample"
    by (simp add: roundingExample_def)
  then show ?thesis
    by (simp add: findUnique_def exampleDb_def newHire_def borderline_def exampleClock_def
        sorted_roundingExample)
qed

text \<open>
  The composite score of the eleven-record example, with every rounding of the source:
  the absenteeism score is 100, the leave pattern score 90, the recent trend score 0, and
  the weekly rates \<open>fl (1/5)\<close>, \<open>fl (3/5)\<close> and 0 give the consistency score
  49.88876515698588.
\<close>

lemma composite64_roundingExample:
  "compositeScore64 roundingExample = 2461927614191777 / 35184372088832"
  by (simp add: compositeScore64_def calculateAbsenteeismScore64_def calculateLeavePatternScore64_def
      calculateConsistencyScore64_def calculateRecentTrendScore64_def absentRate64_def
      roundingExample_def Let_def fl_values fl_minus)

lemma composite64_roundingExample_bounds:
  "69.95 \<le> compositeScore64 roundingExample" "compositeScore64 roundingExample < 70"
  by (simp_all add: composite64_roundingExample)

lemma round_just_below_70:
  assumes "69.95 \<le> c" and "c < 70"
  shows "fl (of_int \<lfloor>fl (c * 10) + 1 / 2\<rfloor> / 10) = 70"
proof -
  have pos: "0 < c * 10" using assms by simp
  have lo: "2 ^ 52 \<le> c * 10 * 2 ^ 43" using assms by simp
  have hi: "c * 10 * 2 ^ 43 < 2 ^ 53" using assms by simp
  note f = fl_normal [OF pos lo hi]
  have "of_int (1399 * 2 ^ 42) \<le> c * 10 * 2 ^ 43" using assms by simp
  from roundEven_ge [OF this] have "real_of_int (1399 * 2 ^ 42) \<le> of_int (roundEven (c * 10 * 2 ^ 43))"
    by (simp only: of_int_le_iff)
  then have a: "1399 / 2 \<le> fl (c * 10)"
    unfolding f by (simp add: field_simps)
  have "c * 10 * 2 ^ 43 \<le> of_int (700 * 2 ^ 43)" using assms by simp
  from roundEven_le [OF this] have "real_of_int (roundEven (c * 10 * 2 ^ 43)) \<le> of_int (700 * 2 ^ 43)"
    by (simp only: of_int_le_iff)
  then have b: "fl (c * 10) \<le> 700"
    unfolding f by (simp add: field_simps)
  from a b have "\<lfloor>fl (c * 10) + 1 / 2\<rfloor> = 700"
    by (simp add: floor_eq_iff)
  then show ?thesis
    by (simp add: fl_70)
qed

lemma risk_newHire:
  "calculateAttritionRisk exampleClock exampleDb ''1'' 3 = Inr (insufficientData newHire)"
proof -
  have "emp_attendance newHire = []"
    by (simp add: newHire_def)
  then show ?thesis
    by (simp add: calculateAttritionRisk_def findUnique_newHire)
qed

lemma risk_borderline:
  "calculateAttritionRisk exampleClock exampleDb ''2'' 3 = Inr (scoreRecords borderline roundingExample)"
proof -
  have "emp_attendance borderline = roundingExample"
    by (simp add: borderline_def)
  moreover have "roundingExample \<noteq> []"
    by (simp add: roundingExample_def)
  ultimately show ?thesis
    by (simp add: calculateAttritionRisk_def findUnique_borderline)
qed

lemma assessment_borderline:
  "score (scoreRecords borderline roundingExample) = 70"
  "riskLevel (scoreRecords borderline roundingExample) = Moderate"
  using round_just_below_70 [OF composite64_roundingExample_bounds] composite64_roundingExample_bounds
  by (simp_all add: scoreRecords_def Let_def mathRound_def determineRiskLevel_def)

text \<open>
  Claim C10.  For a non-empty windowed sequence the returned risk level is High, Moderate
  or Low by the thresholds 70 and 40 applied to the unrounded composite score, and the
  reported score is that composite rounded to one decimal place.  A composite in
  [69.95, 70) is therefore reported as 70 with level Moderate, although the same
  thresholds applied to the reported score give High.  The eleven-record example is such
  a sequence: its composite is \<open>2461927614191777 / 2^45\<close>, which is 69.97219128924647.
\<close>

theorem level_from_unrounded_score:
  "(findUnique db ident (setMonthBack clock (now clock) months) (now clock) = Some emp
      \<and> emp_attendance emp \<noteq> [] \<longrightarrow>
      (\<exists>a. calculateAttritionRisk clock db ident months = Inr a
         \<and> riskLevel a = (if compositeScore64 (emp_attendance emp) \<ge> 70 then High
                           else if compositeScore64 (emp_attendance emp) \<ge> 40 then Moderate
                           else Low)
         \<and> score a = fl (of_int \<lfloor>fl (compositeScore64 (emp_attendance emp) * 10) + 1 / 2\<rfloor> / 10)
         \<and> (69.95 \<le> compositeScore64 (emp_attendance emp) \<and> compositeScore64 (emp_attendance emp) < 70
              \<longrightarrow> score a = 70 \<and> riskLevel a = Moderate
                  \<and> determineRiskLevel (score a) = High)))
   \<and> (\<exists>a. roundingExample \<noteq> []
         \<and> compositeScore64 roundingExample = 2461927614191777 / 35184372088832
         \<and> 69.95 \<le> compositeScore64 roundingExample \<and> compositeScore64 roundingExample < 70
         \<and> calculateAttritionRisk exampleClock exampleDb ''2'' 3 = Inr a
         \<and> score a = 70 \<and> riskLevel a = Moderate \<and> determineRiskLevel (score a) = High)"
proof (intro conjI impI)
  assume h: "findUnique db ident (setMonthBack clock (now clock) months) (now clock) = Some emp
      \<and> emp_attendance emp \<noteq> []"
  let ?a = "scoreRecords emp (emp_attendance emp)" and ?c = "compositeScore64 (emp_attendance emp)"
  from h have 1: "calculateAttritionRisk clock db ident months = Inr ?a"
    by (simp add: calculateAttritionRisk_def)
  have 2: "riskLevel ?a = (if ?c \<ge> 70 then High else if ?c \<ge> 40 then Moderate else Low)"
    by (simp add: scoreRecords_def Let_def determineRiskLevel_def)
  have 3: "score ?a = fl (of_int \<lfloor>fl (?c * 10) + 1 / 2\<rfloor> / 10)"
    by (simp add: scoreRecords_def Let_def mathRound_def)
  have 4: "69.95 \<le> ?c \<and> ?c < 70 \<longrightarrow> score ?a = 70 \<and> riskLevel ?a = Moderate
             \<and> determineRiskLevel (score ?a) = High"
  proof (intro impI, elim conjE)
    assume b: "69.95 \<le> ?c" "?c < 70"
    from round_just_below_70 [OF b] have s: "score ?a = 70"
      unfolding 3 .
    from b have "riskLevel ?a = Moderate"
      unfolding 2 by simp
    moreover have "determineRiskLevel (score ?a) = High"
      unfolding s by (simp add: determineRiskLevel_def)
    ultimately show "score ?a = 70 \<and> riskLevel ?a = Moderate \<and> determineRiskLevel (score ?a) = High"
      using s by simp
  qed
  from 1 2 3 4 show "\<exists>a. calculateAttritionRisk clock db ident months = Inr a
         \<and> riskLevel a = (if compositeScore64 (emp_attendance emp) \<ge> 70 then High
                           else if compositeScore64 (emp_attendance emp) \<ge> 40 then Moderate
                           else Low)
         \<and> score a = fl (of_int \<lfloor>fl (compositeScore64 (emp_attendance emp) * 10) + 1 / 2\<rfloor> / 10)
         \<and> (69.95 \<le> compositeScore64 (emp_attendance emp) \<and> compositeScore64 (emp_attendance emp) < 70
              \<longrightarrow> score a = 70 \<and> riskLevel a = Moderate
                  \<and> determineRiskLevel (score a) = High)"
    by blast
next
  let ?a = "scoreRecords borderline roundingExample"
  have ne: "roundingExample \<noteq> []"
    by (simp add: roundingExample_def)
  have "determineRiskLevel (score ?a) = High"
    unfolding assessment_borderline(1) by (simp add: determineRiskLevel_def)
  with ne risk_borderline assessment_borderline composite64_roundingExample
    composite64_roundingExample_bounds
  show "\<exists>a. roundingExample \<noteq> []
         \<and> compositeScore64 roundingExample = 2461927614191777 / 35184372088832
         \<and> 69.95 \<le> compositeScore64 roundingExample \<and> compositeScore64 roundingExample < 70
         \<and> calculateAttritionRisk exampleClock exampleDb ''2'' 3 = Inr a
         \<and> score a = 70 \<and> riskLevel a = Moderate \<and> determineRiskLevel (score a) = High"
    by blast
qed

text \<open>C10 at the eleven-record example.\<close>

theorem level_from_unrounded_score_witness:
  "findUnique exampleDb ''2'' (setMonthBack exampleClock (now exampleClock) 3) (now exampleClock)
     = Some borderline
   \<and> emp_attendance borderline \<noteq> []
   \<and> 69.95 \<le> compositeScore64 (emp_attendance borderline)
   \<and> compositeScore64 (emp_attendance borderline) < 70
   \<and> (\<exists>a. calculateAttritionRisk exampleClock exampleDb ''2'' 3 = Inr a
          \<and> score a = 70 \<and> riskLevel a = Moderate \<and> determineRiskLevel (score a) = High)"
proof -
  have att: "emp_attendance borderline = roundingExample"
    by (simp add: borderline_def)
  have ne: "emp_attendance borderline \<noteq> []"
    by (simp add: att roundingExample_def)
  have b: "69.95 \<le> compositeScore64 (emp_attendance borderline)"
    "compositeScore64 (emp_attendance borderline) < 70"
    using composite64_roundingExample_bounds by (simp_all add: att)
  from level_from_unrounded_score [of exampleDb "''2''" exampleClock 3 borderline]
    findUnique_borderline ne b
  have "\<exists>a. calculateAttritionRisk exampleClock exampleDb ''2'' 3 = Inr a
          \<and> score a = 70 \<and> riskLevel a = Moderate \<and> determineRiskLevel (score a) = High"
    by blast
  then show ?thesis
    using findUnique_borderline ne b by blast
qed

section \<open>The company report\<close>

lemma levels_partition:
  "length (filter (\<lambda>r. riskLevel r = High) rs) + length (filter (\<lambda>r. riskLevel r = Moderate) rs)
     + length (filter (\<lambda>r. riskLevel r = Low) rs)
   = length (filter (\<lambda>r. riskLevel r \<noteq> InsufficientData) rs)"
proof (induction rs)
  case Nil
  show ?case by simp
next
  case (Cons r rs)
  then show ?case by (cases "riskLevel r") simp_all
qed

lemma scored_plus_unscored:
  "length (filter (\<lambda>r. riskLevel r \<noteq> InsufficientData) rs)
     + length (filter (\<lambda>r. riskLevel r = InsufficientData) rs) = length (rs :: assessment list)"
  by (induction rs) simp_all

lemma report_fields:
  "employees (generateAttritionReport clock db cid months)
     = sort_key (\<lambda>r. - score r) (collectRisks clock db months (findMany db cid) [])"
  "high (summaryOf (generateAttritionReport clock db cid months))
     = length (filter (\<lambda>r. riskLevel r = High) (employees (generateAttritionReport clock db cid months)))"
  "moderate (summaryOf (generateAttritionReport clock db cid months))
     = length (filter (\<lambda>r. riskLevel r = Moderate) (employees (generateAttritionReport clock db cid months)))"
  "low (summaryOf (generateAttritionReport clock db cid months))
     = length (filter (\<lambda>r. riskLevel r = Low) (employees (generateAttritionReport clock db cid months)))"
  by (simp_all add: generateAttritionReport_def Let_def)

text \<open>
  Scoring an employee of the store returns: the only error of
  \<^verbatim>\<open>calculateAttritionRisk\<close> is for an employee the store does not find.  The loop
  of the report therefore collects one assessment for each employee of the company.
\<close>

lemma scoring_returns:
  assumes "e \<in> set db"
  shows "\<exists>a. calculateAttritionRisk clock db (emp_id e) months = Inr a"
proof -
  from assms have "find (\<lambda>x. emp_id x = emp_id e) db \<noteq> None"
    by (auto simp: find_None_iff)
  then obtain emp where
    "findUnique db (emp_id e) (setMonthBack clock (now clock) months) (now clock) = Some emp"
    by (auto simp: findUnique_def)
  then show ?thesis
    by (simp add: calculateAttritionRisk_def Let_def)
qed

lemma collectRisks_all:
  assumes "set es \<subseteq> set db"
  shows "\<exists>rs. list_all2 (\<lambda>e a. calculateAttritionRisk clock db (emp_id e) months = Inr a) es rs
              \<and> collectRisks clock db months es results = results @ rs"
  using assms
proof (induction es arbitrary: results)
  case Nil
  then show ?case by simp
next
  case (Cons e es)
  then have "e \<in> set db" and sub: "set es \<subseteq> set db" by simp_all
  from scoring_returns [OF this(1)] obtain a where
    a: "calculateAttritionRisk clock db (emp_id e) months = Inr a" ..
  from Cons.IH [OF sub, of "results @ [a]"] obtain rs where
    rs: "list_all2 (\<lambda>e a. calculateAttritionRisk clock db (emp_id e) months = Inr a) es rs"
    and c: "collectRisks clock db months es (results @ [a]) = (results @ [a]) @ rs"
    by blast
  have "list_all2 (\<lambda>e a. calculateAttritionRisk clock db (emp_id e) months = Inr a) (e # es) (a # rs)"
    using a rs by simp
  moreover have "collectRisks clock db months (e # es) results = results @ (a # rs)"
    using a c by simp
  ultimately show ?case by blast
qed

text \<open>
  Claim C2, amended.  The employees list of the report holds one assessment for each
  employee of the company, those of \<^verbatim>\<open>calculateAttritionRisk\<close> sorted by descending
  score; the assessment of an employee without attendance in the window is the
  Insufficient Data assessment, and it is in the list.  Each summary count is the number
  of assessments in the list with its level: high counts the level High, moderate the
  level Moderate, low the level Low.  So an assessment whose level is one of the three is
  counted once and an Insufficient Data assessment is counted in none: high + moderate +
  low is the number of assessments whose level is not Insufficient Data, and together
  with the number of Insufficient Data assessments it is the length of the list.
\<close>

theorem summary_counts_scored_only:
  "\<exists>results.
     list_all2 (\<lambda>e a. calculateAttritionRisk clock db (emp_id e) months = Inr a)
       (findMany db cid) results
   \<and> employees (generateAttritionReport clock db cid months) = sort_key (\<lambda>r. - score r) results
   \<and> length (employees (generateAttritionReport clock db cid months)) = length (findMany db cid)
   \<and> (\<forall>e \<in> set (findMany db cid). \<forall>emp.
         findUnique db (emp_id e) (setMonthBack clock (now clock) months) (now clock) = Some emp
         \<and> emp_attendance emp = []
         \<longrightarrow> insufficientData emp \<in> set (employees (generateAttritionReport clock db cid months))
             \<and> riskLevel (insufficientData emp) = InsufficientData)
   \<and> high (summaryOf (generateAttritionReport clock db cid months))
       = length (filter (\<lambda>r. riskLevel r = High) (employees (generateAttritionReport clock db cid months)))
   \<and> moderate (summaryOf (generateAttritionReport clock db cid months))
       = length (filter (\<lambda>r. riskLevel r = Moderate) (employees (generateAttritionReport clock db cid months)))
   \<and> low (summaryOf (generateAttritionReport clock db cid months))
       = length (filter (\<lambda>r. riskLevel r = Low) (employees (generateAttritionReport clock db cid months)))
   \<and> high (summaryOf (generateAttritionReport clock db cid months))
     + moderate (summaryOf (generateAttritionReport clock db cid months))
     + low (summaryOf (generateAttritionReport clock db cid months))
   = length (filter (\<lambda>r. riskLevel r \<noteq> InsufficientData)
       (employees (generateAttritionReport clock db cid months)))
   \<and> high (summaryOf (generateAttritionReport clock db cid months))
     + moderate (summaryOf (generateAttritionReport clock db cid months))
     + low (summaryOf (generateAttritionReport clock db cid months))
     + length (filter (\<lambda>r. riskLevel r = InsufficientData)
         (employees (generateAttritionReport clock db cid months)))
   = length (employees (generateAttritionReport clock db cid months))"
proof -
  let ?rep = "generateAttritionReport clock db cid months"
  have "set (findMany db cid) \<subseteq> set db"
    by (auto simp: findMany_def)
  from collectRisks_all [OF this, of clock months "[]"] obtain results where
    all: "list_all2 (\<lambda>e a. calculateAttritionRisk clock db (emp_id e) months = Inr a)
            (findMany db cid) results"
    and c: "collectRisks clock db months (findMany db cid) [] = results"
    by auto
  have 1: "employees ?rep = sort_key (\<lambda>r. - score r) results"
    by (simp add: report_fields(1) c)
  have 2: "length (employees ?rep) = length (findMany db cid)"
    using list_all2_lengthD [OF all] by (simp add: 1)
  have 3: "\<forall>e \<in> set (findMany db cid). \<forall>emp.
         findUnique db (emp_id e) (setMonthBack clock (now clock) months) (now clock) = Some emp
         \<and> emp_attendance emp = []
         \<longrightarrow> insufficientData emp \<in> set (employees ?rep)
             \<and> riskLevel (insufficientData emp) = InsufficientData"
  proof (intro ballI allI impI)
    fix e emp
    assume e: "e \<in> set (findMany db cid)"
      and f: "findUnique db (emp_id e) (setMonthBack clock (now clock) months) (now clock) = Some emp
                \<and> emp_attendance emp = []"
    from f have r: "calculateAttritionRisk clock db (emp_id e) months = Inr (insufficientData emp)"
      by (simp add: calculateAttritionRisk_def Let_def)
    from e obtain i where i: "i < length (findMany db cid)" "findMany db cid ! i = e"
      by (auto simp: in_set_conv_nth)
    from list_all2_nthD [OF all i(1)] i(2) r have "results ! i = insufficientData emp"
      by simp
    moreover have "i < length results"
      using i(1) list_all2_lengthD [OF all] by simp
    ultimately have "insufficientData emp \<in> set results"
      by (metis nth_mem)
    then show "insufficientData emp \<in> set (employees ?rep)
             \<and> riskLevel (insufficientData emp) = InsufficientData"
      by (simp add: 1 insufficientData_def)
  qed
  have 4: "high (summaryOf ?rep) + moderate (summaryOf ?rep) + low (summaryOf ?rep)
             = length (filter (\<lambda>r. riskLevel r \<noteq> InsufficientData) (employees ?rep))"
    unfolding report_fields(2-4) levels_partition by simp
  have 5: "high (summaryOf ?rep) + moderate (summaryOf ?rep) + low (summaryOf ?rep)
             + length (filter (\<lambda>r. riskLevel r = InsufficientData) (employees ?rep))
             = length (employees ?rep)"
    unfolding 4 scored_plus_unscored by simp
  from all 1 2 3 report_fields(2-4) [of clock db cid months] 4 5 show ?thesis
    by blast
qed

text \<open>
  Claim C2 as stated fails for a company whose only employee has no attendance in the
  window: the employees list has one assessment, and the three counts sum to 0.
\<close>

theorem summary_counts_counterexample:
  "length (employees (generateAttritionReport exampleClock [newHire] ''acme'' 3)) = 1
   \<and> high (summaryOf (generateAttritionReport exampleClock [newHire] ''acme'' 3))
     + moderate (summaryOf (generateAttritionReport exampleClock [newHire] ''acme'' 3))
     + low (summaryOf (generateAttritionReport exampleClock [newHire] ''acme'' 3)) = 0"
proof -
  have "calculateAttritionRisk exampleClock [newHire] ''1'' 3 = Inr (insufficientData newHire)"
    by (simp add: calculateAttritionRisk_def findUnique_def newHire_def)
  then have "collectRisks exampleClock [newHire] 3 [newHire] [] = [insufficientData newHire]"
    by (simp add: newHire_def)
  then show ?thesis
    by (simp add: generateAttritionReport_def findMany_def newHire_def insufficientData_def)
qed

lemma report_exampleDb:
  "employees (generateAttritionReport exampleClock exampleDb ''acme'' 3)
     = [scoreRecords borderline roundingExample, insufficientData newHire]"
proof -
  have ids: "emp_id newHire = ''1''" "emp_id borderline = ''2''"
    by (simp_all add: newHire_def borderline_def)
  have "findMany exampleDb ''acme'' = [newHire, borderline]"
    by (simp add: findMany_def exampleDb_def newHire_def borderline_def)
  then have "collectRisks exampleClock exampleDb 3 (findMany exampleDb ''acme'') []
               = [insufficientData newHire, scoreRecords borderline roundingExample]"
    by (simp add: ids risk_newHire risk_borderline)
  moreover have "score (insufficientData newHire) = 0"
    by (simp add: insufficientData_def)
  ultimately show ?thesis
    by (simp add: report_fields(1) assessment_borderline)
qed

text \<open>
  The amended C2 on the two example employees: the employee without attendance is in the
  list, behind the one whose score is 70, and is counted in none of the three counts.
\<close>

theorem summary_counts_scored_only_witness:
  "newHire \<in> set (findMany exampleDb ''acme'')
   \<and> findUnique exampleDb (emp_id newHire) (setMonthBack exampleClock (now exampleClock) 3)
         (now exampleClock) = Some newHire
   \<and> emp_attendance newHire = []
   \<and> insufficientData newHire \<in> set (employees (generateAttritionReport exampleClock exampleDb ''acme'' 3))
   \<and> riskLevel (insufficientData newHire) = InsufficientData
   \<and> employees (generateAttritionReport exampleClock exampleDb ''acme'' 3)
       = [scoreRecords borderline roundingExample, insufficientData newHire]
   \<and> length (findMany exampleDb ''acme'') = 2
   \<and> high (summaryOf (generateAttritionReport exampleClock exampleDb ''acme'' 3)) = 0
   \<and> moderate (summaryOf (generateAttritionReport exampleClock exampleDb ''acme'' 3)) = 1
   \<and> low (summaryOf (generateAttritionReport exampleClock exampleDb ''acme'' 3)) = 0"
proof -
  let ?rep = "generateAttritionReport exampleClock exampleDb ''acme'' 3"
  have m: "newHire \<in> set (findMany exampleDb ''acme'')" "length (findMany exampleDb ''acme'') = 2"
    by (simp_all add: findMany_def exampleDb_def newHire_def borderline_def)
  have f: "findUnique exampleDb (emp_id newHire) (setMonthBack exampleClock (now exampleClock) 3)
         (now exampleClock) = Some newHire"
    using findUnique_newHire by (simp add: newHire_def)
  have e: "emp_attendance newHire = []"
    by (simp add: newHire_def)
  have l: "riskLevel (insufficientData newHire) = InsufficientData"
    by (simp add: insufficientData_def)
  from summary_counts_scored_only [of exampleClock exampleDb 3 "''acme''"] m(1) f e
  have i: "insufficientData newHire \<in> set (employees ?rep)"
    by blast
  from summary_counts_scored_only [of exampleClock exampleDb 3 "''acme''"]
  have c: "high (summaryOf ?rep) = length (filter (\<lambda>r. riskLevel r = High) (employees ?rep))"
    "moderate (summaryOf ?rep) = length (filter (\<lambda>r. riskLevel r = Moderate) (employees ?rep))"
    "low (summaryOf ?rep) = length (filter (\<lambda>r. riskLevel r = Low) (employees ?rep))"
    by blast+
  have "high (summaryOf ?rep) = 0" "moderate (summaryOf ?rep) = 1" "low (summaryOf ?rep) = 0"
    unfolding c report_exampleDb by (simp_all add: assessment_borderline l)
  with m f e i l report_exampleDb show ?thesis
    by blast
qed

section \<open>Properties of the row loop\<close>

lemma fieldErrors_Nil_iff:
  "fieldErrors lib r = [] \<longleftrightarrow>
     employeeIdErrors r = [] \<and> employeeNameErrors r = []
     \<and> dateErrors lib (parsedDateOf lib r) = [] \<and> statusErrors r = []
     \<and> informedTimeErrors lib r (parsedDateOf lib r) = []
     \<and> departmentErrors r = [] \<and> managerEmailErrors r = []"
  by (simp add: fieldErrors_def)

lemma normalizeRecord_defined:
  assumes "fieldErrors lib r = []"
  shows "\<exists>v. normalizeRecord lib r = Some v"
proof -
  from assms have "field r ''employee_id'' \<noteq> None"
    by (auto simp: fieldErrors_Nil_iff employeeIdErrors_def split: option.splits)
  moreover from assms have "field r ''employee_name'' \<noteq> None"
    by (auto simp: fieldErrors_Nil_iff employeeNameErrors_def split: option.splits)
  moreover from assms have "field r ''status'' \<noteq> None"
    by (auto simp: fieldErrors_Nil_iff statusErrors_def split: if_splits option.splits)
  moreover from assms have "field r ''department'' \<noteq> None"
    by (auto simp: fieldErrors_Nil_iff departmentErrors_def split: option.splits)
  moreover from assms have "field r ''manager_email'' \<noteq> None"
    by (auto simp: fieldErrors_Nil_iff managerEmailErrors_def split: option.splits)
  ultimately show ?thesis
    by (auto simp: normalizeRecord_def)
qed

lemma rowStep_reported:
  assumes "fieldErrors lib r @ duplicateErrors (st_seenKeys st) r \<noteq> []"
  shows "rowStep lib i r st =
           Inr (st\<lparr> st_errors := st_errors st
                        @ [RowError (i + 2) (fieldErrors lib r @ duplicateErrors (st_seenKeys st) r)],
                     st_seenKeys := (if rowKey r \<in> set (st_seenKeys st) then st_seenKeys st
                                     else st_seenKeys st @ [rowKey r]) \<rparr>)"
  using assms by (simp add: rowStep_def Let_def)

lemma rowStep_accepted:
  assumes "fieldErrors lib r @ duplicateErrors (st_seenKeys st) r = []"
  shows "\<exists>v. normalizeRecord lib r = Some v
           \<and> rowStep lib i r st =
               Inr (st\<lparr> st_validRecords := st_validRecords st @ [v],
                         st_seenKeys := st_seenKeys st @ [rowKey r] \<rparr>)"
proof -
  from assms have f: "fieldErrors lib r = []" and d: "duplicateErrors (st_seenKeys st) r = []"
    by simp_all
  from d have k: "rowKey r \<notin> set (st_seenKeys st)"
    by (simp add: duplicateErrors_def split: if_splits)
  from normalizeRecord_defined [OF f] obtain v where v: "normalizeRecord lib r = Some v" ..
  with f d k show ?thesis
    by (simp add: rowStep_def Let_def)
qed

lemma validateRows_outcome:
  assumes "k \<le> length records"
    and "set (st_seenKeys st) = set (map rowKey (take k records))"
  shows "\<exists>st' vs. validateRows lib k (drop k records) st = Inr st'
           \<and> st_errors st' = st_errors st @ rowReportsFrom lib records k
           \<and> st_validRecords st' = st_validRecords st @ vs
           \<and> list_all2 (\<lambda>v r. normalizeRecord lib r = Some v) vs (acceptedFrom lib records k)"
  using assms
proof (induction "length records - k" arbitrary: k st)
  case 0
  then have "k = length records" by simp
  then show ?case
    by (simp add: rowReportsFrom_def acceptedFrom_def)
next
  case (Suc n)
  then have k: "k < length records" by simp
  let ?r = "records ! k"
  have drop: "drop k records = ?r # drop (Suc k) records"
    using k by (simp add: Cons_nth_drop_Suc)
  have upt: "[k ..< length records] = k # [Suc k ..< length records]"
    using k by (simp add: upt_conv_Cons)
  have dup: "duplicateErrors (st_seenKeys st) ?r
               = (if duplicateAt records k then [''duplicate employee_id + date combination''] else [])"
    using Suc.prems(2) by (simp add: duplicateErrors_def duplicateAt_def)
  then have errs: "fieldErrors lib ?r @ duplicateErrors (st_seenKeys st) ?r = rowErrorsAt lib records k"
    by (simp add: rowErrorsAt_def)
  have seen: "set (if rowKey ?r \<in> set (st_seenKeys st) then st_seenKeys st
                   else st_seenKeys st @ [rowKey ?r])
                = set (map rowKey (take (Suc k) records))"
    using Suc.prems(2) k by (auto simp: take_Suc_conv_app_nth)
  have n: "n = length records - Suc k" using Suc.hyps(2) by simp
  show ?case
  proof (cases "rowErrorsAt lib records k = []")
    case False
    let ?st1 = "st\<lparr> st_errors := st_errors st @ [RowError (k + 2) (rowErrorsAt lib records k)],
                     st_seenKeys := (if rowKey ?r \<in> set (st_seenKeys st) then st_seenKeys st
                                     else st_seenKeys st @ [rowKey ?r]) \<rparr>"
    have step: "rowStep lib k ?r st = Inr ?st1"
      using False rowStep_reported [of lib ?r st k] by (simp add: errs)
    have "set (st_seenKeys ?st1) = set (map rowKey (take (Suc k) records))"
      using seen by simp
    from Suc.hyps(1) [OF n _ this] k
    obtain st' vs where
      "validateRows lib (Suc k) (drop (Suc k) records) ?st1 = Inr st'"
      "st_errors st' = st_errors ?st1 @ rowReportsFrom lib records (Suc k)"
      "st_validRecords st' = st_validRecords ?st1 @ vs"
      "list_all2 (\<lambda>v r. normalizeRecord lib r = Some v) vs (acceptedFrom lib records (Suc k))"
      by auto
    then show ?thesis
      using False step by (simp add: drop upt rowReportsFrom_def acceptedFrom_def)
  next
    case True
    from rowStep_accepted [of lib ?r st k] True errs
    obtain v where v: "normalizeRecord lib ?r = Some v"
      and step: "rowStep lib k ?r st =
                   Inr (st\<lparr> st_validRecords := st_validRecords st @ [v],
                             st_seenKeys := st_seenKeys st @ [rowKey ?r] \<rparr>)"
      by auto
    let ?st1 = "st\<lparr> st_validRecords := st_validRecords st @ [v],
                     st_seenKeys := st_seenKeys st @ [rowKey ?r] \<rparr>"
    have "\<not> duplicateAt records k"
      using True by (simp add: rowErrorsAt_def split: if_splits)
    then have "rowKey ?r \<notin> set (st_seenKeys st)"
      using Suc.prems(2) by (simp add: duplicateAt_def)
    then have "set (st_seenKeys ?st1) = set (map rowKey (take (Suc k) records))"
      using seen by simp
    from Suc.hyps(1) [OF n _ this] k
    obtain st' vs where
      "validateRows lib (Suc k) (drop (Suc k) records) ?st1 = Inr st'"
      "st_errors st' = st_errors ?st1 @ rowReportsFrom lib records (Suc k)"
      "st_validRecords st' = st_validRecords ?st1 @ vs"
      "list_all2 (\<lambda>v r. normalizeRecord lib r = Some v) vs (acceptedFrom lib records (Suc k))"
      by auto
    then show ?thesis
      using True step v by (simp add: drop upt rowReportsFrom_def acceptedFrom_def)
  qed
qed




lemma validateAndNormalize_Inr:
  assumes "validateAndNormalize lib records = Inr res"
  obtains st employeeGroups where
    "records \<noteq> []"
    "validateRows lib 0 records \<lparr> st_errors = [], st_validRecords = [], st_seenKeys = [] \<rparr> = Inr st"
    "groupRecords (st_validRecords st) [] = Inr employeeGroups"
    "validRecords res = st_validRecords st"
    "errors res = st_errors st @ volumeErrors employeeGroups"
    "invalidRecords res = length (errors res)"
    "valid res = (errors res = [])"
  using assms
  by (auto simp: validateAndNormalize_def Let_def split: list.splits if_splits sum.splits)










section \<open>The volume check and the file-level failures\<close>

lemma map_fst_push:
  "map fst (map (\<lambda>(k, v). if k = e then (k, v @ [r]) else (k, v)) g) = map fst g"
  by (induction g) auto

lemma groupRecords_groups:
  assumes "groupRecords vs g = Inr g'"
    and "distinct (map fst g)"
    and "fst ` set g = rec_employeeId ` set seen"
    and "\<forall>(k, rs) \<in> set g. rs = filter (\<lambda>r. rec_employeeId r = k) seen"
  shows "distinct (map fst g')
       \<and> fst ` set g' = rec_employeeId ` set (seen @ vs)
       \<and> (\<forall>(k, rs) \<in> set g'. rs = filter (\<lambda>r. rec_employeeId r = k) (seen @ vs))"
  using assms
proof (induction vs arbitrary: g seen)
  case Nil
  then show ?case by simp
next
  case (Cons r vs)
  let ?e = "rec_employeeId r"
  show ?case
  proof (cases "map_of g ?e")
    case (Some members)
    let ?g1 = "map (\<lambda>(k, v). if k = ?e then (k, v @ [r]) else (k, v)) g"
    from Some have mem: "?e \<in> fst ` set g"
      by (metis map_of_SomeD fst_conv imageI)
    have run: "groupRecords vs ?g1 = Inr g'"
      using Cons.prems(1) Some by simp
    have d: "distinct (map fst ?g1)"
      using Cons.prems(2) by (simp only: map_fst_push)
    have k: "fst ` set ?g1 = rec_employeeId ` set (seen @ [r])"
    proof -
      have "fst ` set ?g1 = set (map fst ?g1)" by (simp only: set_map)
      also have "\<dots> = set (map fst g)" by (simp only: map_fst_push)
      also have "\<dots> = fst ` set g" by (simp only: set_map)
      finally show ?thesis using mem Cons.prems(3) by auto
    qed
    have c: "\<forall>(k, rs) \<in> set ?g1. rs = filter (\<lambda>x. rec_employeeId x = k) (seen @ [r])"
      using Cons.prems(4) by (fastforce split: if_splits)
    from Cons.IH [OF run d k c] show ?thesis by simp
  next
    case None
    let ?g1 = "g @ [(?e, [r])]"
    from None have fresh: "?e \<notin> fst ` set g"
      by (simp add: map_of_eq_None_iff)
    have run: "groupRecords vs ?g1 = Inr g'"
      using Cons.prems(1) None by (simp split: if_splits)
    have d: "distinct (map fst ?g1)"
      using Cons.prems(2) fresh by simp
    have k: "fst ` set ?g1 = rec_employeeId ` set (seen @ [r])"
      using Cons.prems(3) by auto
    have "?e \<notin> rec_employeeId ` set seen"
      using fresh Cons.prems(3) by simp
    then have "filter (\<lambda>x. rec_employeeId x = ?e) seen = []"
      unfolding filter_empty_conv by (metis imageI)
    then have c: "\<forall>(k, rs) \<in> set ?g1. rs = filter (\<lambda>x. rec_employeeId x = k) (seen @ [r])"
      using Cons.prems(4) fresh by (auto simp: rev_image_eqI)
    from Cons.IH [OF run d k c] show ?thesis by simp
  qed
qed

lemma set_objectEntries: "set (objectEntries obj) = set obj"
  by (auto simp: objectEntries_def)

lemma distinct_objectEntries: "distinct obj \<Longrightarrow> distinct (objectEntries obj)"
  by (auto simp: objectEntries_def)

lemma volumeErrors_groups:
  assumes d: "distinct (map fst g)"
    and k: "fst ` set g = rec_employeeId ` set vs"
    and c: "\<forall>(e, rs) \<in> set g. rs = filter (\<lambda>r. rec_employeeId r = e) vs"
  shows "set (volumeErrors g)
           = (\<lambda>e. EmployeeError e [volumeMessage (validCount vs e)])
               ` {e \<in> rec_employeeId ` set vs. validCount vs e < 55 \<or> 70 < validCount vs e}"
    and "distinct (volumeErrors g)"
proof -
  let ?f = "\<lambda>(e, rs :: attendanceRecord list). EmployeeError e [volumeMessage (length rs)]"
  let ?out = "\<lambda>(e, rs :: attendanceRecord list). length rs < 55 \<or> length rs > 70"
  have len: "length rs = validCount vs e" if "(e, rs) \<in> set g" for e rs
    using c that by (auto simp: validCount_def)
  have pair: "(e, filter (\<lambda>r. rec_employeeId r = e) vs) \<in> set g" if "e \<in> rec_employeeId ` set vs" for e
  proof -
    from that k obtain rs where "(e, rs) \<in> set g" by force
    with c show ?thesis by auto
  qed
  have "set (volumeErrors g) = ?f ` {p \<in> set g. ?out p}"
    by (simp add: volumeErrors_def set_objectEntries)
  also have "\<dots> = (\<lambda>e. EmployeeError e [volumeMessage (validCount vs e)])
               ` {e \<in> rec_employeeId ` set vs. validCount vs e < 55 \<or> 70 < validCount vs e}"
  proof (intro set_eqI iffI)
    fix x assume "x \<in> ?f ` {p \<in> set g. ?out p}"
    then obtain e rs where p: "(e, rs) \<in> set g" "length rs < 55 \<or> length rs > 70"
      and x: "x = EmployeeError e [volumeMessage (length rs)]"
      by auto
    from p(1) k have "e \<in> rec_employeeId ` set vs" by force
    with p x len [OF p(1)]
    show "x \<in> (\<lambda>e. EmployeeError e [volumeMessage (validCount vs e)])
               ` {e \<in> rec_employeeId ` set vs. validCount vs e < 55 \<or> 70 < validCount vs e}"
      by auto
  next
    fix x assume "x \<in> (\<lambda>e. EmployeeError e [volumeMessage (validCount vs e)])
               ` {e \<in> rec_employeeId ` set vs. validCount vs e < 55 \<or> 70 < validCount vs e}"
    then obtain e where e: "e \<in> rec_employeeId ` set vs"
      "validCount vs e < 55 \<or> 70 < validCount vs e"
      and x: "x = EmployeeError e [volumeMessage (validCount vs e)]"
      by auto
    let ?rs = "filter (\<lambda>r. rec_employeeId r = e) vs"
    from pair [OF e(1)] have "(e, ?rs) \<in> set g" .
    moreover have "length ?rs = validCount vs e" by (simp add: validCount_def)
    ultimately have "(e, ?rs) \<in> {p \<in> set g. ?out p}" and "x = ?f (e, ?rs)"
      using e(2) x by auto
    then show "x \<in> ?f ` {p \<in> set g. ?out p}" by blast
  qed
  finally show "set (volumeErrors g)
           = (\<lambda>e. EmployeeError e [volumeMessage (validCount vs e)])
               ` {e \<in> rec_employeeId ` set vs. validCount vs e < 55 \<or> 70 < validCount vs e}" .
  have dg: "distinct g"
    using d by (rule distinct_map [THEN iffD1, THEN conjunct1])
  have "inj_on ?f (set g)"
  proof (rule inj_onI)
    fix p q assume "p \<in> set g" "q \<in> set g" "?f p = ?f q"
    then have "fst p = fst q" by (auto split: prod.splits)
    with d \<open>p \<in> set g\<close> \<open>q \<in> set g\<close> show "p = q"
      by (meson distinct_map inj_onD)
  qed
  then have "inj_on ?f (set (filter ?out (objectEntries g)))"
    by (rule inj_on_subset) (auto simp: set_objectEntries)
  then show "distinct (volumeErrors g)"
    using distinct_objectEntries [OF dg] by (simp add: volumeErrors_def distinct_map)
qed

text \<open>
  Whenever validation returns a result, the valid records are those of the row loop, and
  the errors are those of the row loop followed by one employee-scoped error for each
  employee whose number of valid rows is outside [55,70].
\<close>

lemma volume_check_keeps_records:
  assumes "validateAndNormalize lib records = Inr res"
  shows "\<exists>st vErrs.
           validateRows lib 0 records \<lparr> st_errors = [], st_validRecords = [], st_seenKeys = [] \<rparr> = Inr st
         \<and> validRecords res = st_validRecords st
         \<and> errors res = st_errors st @ vErrs
         \<and> distinct vErrs
         \<and> set vErrs
             = (\<lambda>e. EmployeeError e [volumeMessage (validCount (validRecords res) e)])
                 ` {e \<in> rec_employeeId ` set (validRecords res).
                      validCount (validRecords res) e < 55 \<or> 70 < validCount (validRecords res) e}"
proof -
  from assms obtain st g where
    loop: "validateRows lib 0 records \<lparr> st_errors = [], st_validRecords = [], st_seenKeys = [] \<rparr> = Inr st"
    and grp: "groupRecords (st_validRecords st) [] = Inr g"
    and v: "validRecords res = st_validRecords st"
    and e: "errors res = st_errors st @ volumeErrors g"
    by (rule validateAndNormalize_Inr)
  from groupRecords_groups [OF grp, of "[]"]
  have inv: "distinct (map fst g)" "fst ` set g = rec_employeeId ` set (st_validRecords st)"
    "\<forall>(k, rs) \<in> set g. rs = filter (\<lambda>r. rec_employeeId r = k) (st_validRecords st)"
    by simp_all
  note ve = volumeErrors_groups [OF inv]
  from loop v e ve show ?thesis
    by (intro exI [of _ st] exI [of _ "volumeErrors g"]) simp
qed

text \<open>
  Validation returns a result exactly when the file is not empty, its first record has
  every required column, and no accepted row has an employee_id that, trimmed, is the name
  of a property of \<^verbatim>\<open>Object.prototype\<close>.
\<close>

lemma groupRecords_returns:
  "(\<exists>g'. groupRecords vs g = Inr g')
     \<longleftrightarrow> (\<forall>r \<in> set vs. rec_employeeId r \<in> set objectPrototypeKeys \<longrightarrow> rec_employeeId r \<in> fst ` set g)"
proof (induction vs arbitrary: g)
  case Nil
  show ?case by simp
next
  case (Cons r vs)
  let ?e = "rec_employeeId r"
  show ?case
  proof (cases "map_of g ?e")
    case (Some members)
    let ?g1 = "map (\<lambda>(k, v). if k = ?e then (k, v @ [r]) else (k, v)) g"
    from Some have mem: "?e \<in> fst ` set g"
      by (metis map_of_SomeD fst_conv imageI)
    have "fst ` set ?g1 = set (map fst ?g1)" by (simp only: set_map)
    also have "\<dots> = set (map fst g)" by (simp only: map_fst_push)
    also have "\<dots> = fst ` set g" by (simp only: set_map)
    finally have k: "fst ` set ?g1 = fst ` set g" .
    have "groupRecords (r # vs) g = groupRecords vs ?g1"
      using Some by simp
    then show ?thesis
      using Cons.IH [of ?g1] mem by (simp only: k) auto
  next
    case None
    then have fresh: "?e \<notin> fst ` set g"
      by (simp add: map_of_eq_None_iff)
    show ?thesis
    proof (cases "?e \<in> set objectPrototypeKeys")
      case True
      then have "groupRecords (r # vs) g
                   = Inl (TypeError ''employeeGroups[record.employeeId].push is not a function'')"
        using None by simp
      then show ?thesis using True fresh by auto
    next
      case False
      let ?g1 = "g @ [(?e, [r])]"
      have "groupRecords (r # vs) g = groupRecords vs ?g1"
        using None False by simp
      moreover have "fst ` set ?g1 = insert ?e (fst ` set g)" by auto
      ultimately show ?thesis
        using Cons.IH [of ?g1] False by auto
    qed
  qed
qed

lemma validateAndNormalize_returns:
  "(\<exists>res. validateAndNormalize lib records = Inr res)
     \<longleftrightarrow> records \<noteq> [] \<and> set REQUIRED_COLUMNS \<subseteq> set (map fst (hd records))
         \<and> (\<forall>r \<in> set (acceptedFrom lib records 0). \<forall>v. normalizeRecord lib r = Some v
               \<longrightarrow> rec_employeeId v \<notin> set objectPrototypeKeys)"
proof (cases records)
  case Nil
  then show ?thesis by (simp add: validateAndNormalize_def)
next
  case (Cons first others)
  let ?init = "\<lparr> st_errors = [], st_validRecords = [], st_seenKeys = [] \<rparr>"
  from validateRows_outcome [of 0 records ?init lib]
  obtain st where loop: "validateRows lib 0 records ?init = Inr st"
    and acc: "list_all2 (\<lambda>v r. normalizeRecord lib r = Some v) (st_validRecords st) (acceptedFrom lib records 0)"
    by auto
  have ids: "(\<forall>r \<in> set (acceptedFrom lib records 0). \<forall>v. normalizeRecord lib r = Some v
               \<longrightarrow> rec_employeeId v \<notin> set objectPrototypeKeys)
             \<longleftrightarrow> (\<forall>v \<in> set (st_validRecords st). rec_employeeId v \<notin> set objectPrototypeKeys)"
  proof
    assume a: "\<forall>r \<in> set (acceptedFrom lib records 0). \<forall>v. normalizeRecord lib r = Some v
               \<longrightarrow> rec_employeeId v \<notin> set objectPrototypeKeys"
    show "\<forall>v \<in> set (st_validRecords st). rec_employeeId v \<notin> set objectPrototypeKeys"
    proof
      fix v assume "v \<in> set (st_validRecords st)"
      then obtain i where i: "i < length (st_validRecords st)" "st_validRecords st ! i = v"
        by (auto simp: in_set_conv_nth)
      from list_all2_nthD [OF acc i(1)] i(2)
      have n: "normalizeRecord lib (acceptedFrom lib records 0 ! i) = Some v" by simp
      from i(1) list_all2_lengthD [OF acc]
      have "acceptedFrom lib records 0 ! i \<in> set (acceptedFrom lib records 0)" by simp
      with n obtain r where "r \<in> set (acceptedFrom lib records 0)" "normalizeRecord lib r = Some v"
        by blast
      with a show "rec_employeeId v \<notin> set objectPrototypeKeys" by blast
    qed
  next
    assume a: "\<forall>v \<in> set (st_validRecords st). rec_employeeId v \<notin> set objectPrototypeKeys"
    show "\<forall>r \<in> set (acceptedFrom lib records 0). \<forall>v. normalizeRecord lib r = Some v
               \<longrightarrow> rec_employeeId v \<notin> set objectPrototypeKeys"
    proof (intro ballI allI impI)
      fix r v assume "r \<in> set (acceptedFrom lib records 0)" "normalizeRecord lib r = Some v"
      then obtain i where i: "i < length (acceptedFrom lib records 0)"
        "acceptedFrom lib records 0 ! i = r" and n: "normalizeRecord lib r = Some v"
        by (auto simp: in_set_conv_nth)
      from list_all2_nthD2 [OF acc i(1)] i(2) n
      have "st_validRecords st ! i = v" by simp
      moreover from i(1) list_all2_lengthD [OF acc] have "st_validRecords st ! i \<in> set (st_validRecords st)"
        by simp
      ultimately have "v \<in> set (st_validRecords st)" by simp
      with a show "rec_employeeId v \<notin> set objectPrototypeKeys" by blast
    qed
  qed
  have grp: "(\<exists>g. groupRecords (st_validRecords st) [] = Inr g)
               \<longleftrightarrow> (\<forall>v \<in> set (st_validRecords st). rec_employeeId v \<notin> set objectPrototypeKeys)"
    using groupRecords_returns [of "st_validRecords st" "[]"] by auto
  have "(\<exists>res. validateAndNormalize lib records = Inr res)
          \<longleftrightarrow> set REQUIRED_COLUMNS \<subseteq> set (map fst first)
              \<and> (\<exists>g. groupRecords (st_validRecords st) [] = Inr g)"
    using loop Cons
    by (auto simp: validateAndNormalize_def Let_def filter_empty_conv split: sum.splits)
  then have "(\<exists>res. validateAndNormalize lib records = Inr res)
          \<longleftrightarrow> set REQUIRED_COLUMNS \<subseteq> set (map fst first)
              \<and> (\<forall>r \<in> set (acceptedFrom lib records 0). \<forall>v. normalizeRecord lib r = Some v
                    \<longrightarrow> rec_employeeId v \<notin> set objectPrototypeKeys)"
    by (simp only: grp ids)
  then show ?thesis
    by (simp add: Cons)
qed

text \<open>
  Claim C9.  A non-empty file whose first record lacks a required column fails as a whole
  with the missing-columns error, which names exactly the required columns that are
  missing; there is no result, hence no valid record and no per-row error, and the row
  loop is not entered.  \<^verbatim>\<open>parseCSV\<close> throws the same message with its prefix.
\<close>

theorem missing_columns_fatal:
  assumes "\<not> set REQUIRED_COLUMNS \<subseteq> set (map fst first)"
  shows "filter (\<lambda>col. col \<notin> set (map fst first)) REQUIRED_COLUMNS \<noteq> []
       \<and> set (filter (\<lambda>col. col \<notin> set (map fst first)) REQUIRED_COLUMNS)
           = set REQUIRED_COLUMNS - set (map fst first)
       \<and> validateAndNormalize lib (first # others)
           = Inl (Error (''Missing required columns: ''
                          @ joinWith '', '' (filter (\<lambda>col. col \<notin> set (map fst first)) REQUIRED_COLUMNS)))
       \<and> parseCSV lib (Inr (first # others))
           = Inl (Error (''CSV parsing failed: '' @ ''Missing required columns: ''
                          @ joinWith '', '' (filter (\<lambda>col. col \<notin> set (map fst first)) REQUIRED_COLUMNS)))"
proof -
  let ?missing = "filter (\<lambda>col. col \<notin> set (map fst first)) REQUIRED_COLUMNS"
  from assms have ne: "?missing \<noteq> []"
    by (auto simp: filter_empty_conv)
  have s: "set ?missing = set REQUIRED_COLUMNS - set (map fst first)"
    by auto
  from ne have v: "validateAndNormalize lib (first # others)
           = Inl (Error (''Missing required columns: '' @ joinWith '', '' ?missing))"
    by (simp add: validateAndNormalize_def Let_def)
  then have "parseCSV lib (Inr (first # others))
           = Inl (Error (''CSV parsing failed: '' @ ''Missing required columns: ''
                          @ joinWith '', '' ?missing))"
    by (simp add: parseCSV_def message_def)
  with ne s v show ?thesis by blast
qed

text \<open>
  The two rules for a leave row whose informed time parses: a planned leave is rejected
  when the informed time is later than the leave date, an unplanned leave when the two are
  more than 24 hours apart; with an unparseable date neither rule reports anything.
\<close>

lemma planned_leave_rule:
  assumes "field r ''status'' = Some ''Planned Leave''"
    and "field r ''informed_time'' = Some s" and "s \<noteq> []"
    and "newDate lib s = Date i"
  shows "informedTimeErrors lib r (Date d)
           = (if d < i then [''informed_time must be before the leave date for planned leave''] else [])"
    and "informedTimeErrors lib r InvalidDate = []"
  using assms by (simp_all add: informedTimeErrors_def Let_def dateGreater_def)

lemma unplanned_leave_rule:
  assumes "field r ''status'' = Some ''Unplanned Leave''"
    and "field r ''informed_time'' = Some s" and "s \<noteq> []"
    and "newDate lib s = Date i"
  shows "informedTimeErrors lib r (Date d)
           = (if \<bar>d - i\<bar> > 24 * 3600000
              then [''informed_time must be within 24 hours of date for unplanned leave''] else [])"
    and "informedTimeErrors lib r InvalidDate = []"
proof -
  have "(\<bar>real_of_int (d - i)\<bar> / (1000 * 60 * 60) > 24) = (\<bar>d - i\<bar> > 24 * 3600000)"
  proof -
    have "(\<bar>real_of_int (d - i)\<bar> / (1000 * 60 * 60) > 24) = (real_of_int \<bar>d - i\<bar> > real_of_int (24 * 3600000))"
      by (simp add: field_simps)
    also have "\<dots> = (\<bar>d - i\<bar> > 24 * 3600000)"
      by (simp only: of_int_less_iff)
    finally show ?thesis .
  qed
  with assms show "informedTimeErrors lib r (Date d)
           = (if \<bar>d - i\<bar> > 24 * 3600000
              then [''informed_time must be within 24 hours of date for unplanned leave''] else [])"
    by (simp add: informedTimeErrors_def Let_def hoursBetween_def)
  from assms show "informedTimeErrors lib r InvalidDate = []"
    by (simp add: informedTimeErrors_def Let_def hoursBetween_def)
qed

section \<open>The validator on the example rows\<close>

lemma field_mkRow:
  "field (mkRow a b c d e f g) ''employee_id'' = Some a"
  "field (mkRow a b c d e f g) ''employee_name'' = Some b"
  "field (mkRow a b c d e f g) ''date'' = Some c"
  "field (mkRow a b c d e f g) ''status'' = Some d"
  "field (mkRow a b c d e f g) ''informed_time'' = Some e"
  "field (mkRow a b c d e f g) ''department'' = Some f"
  "field (mkRow a b c d e f g) ''manager_email'' = Some g"
  by (simp_all add: field_def mkRow_def)

lemma columns_mkRow: "map fst (mkRow a b c d e f g) = REQUIRED_COLUMNS"
  by (simp add: mkRow_def REQUIRED_COLUMNS_def)

lemma rowKey_mkRow: "rowKey (mkRow a b c d e f g) = a @ ''_'' @ c"
  by (simp add: rowKey_def field_mkRow jsString_def)

lemmas row_rules =
  fieldErrors_def employeeIdErrors_def employeeNameErrors_def parsedDateOf_def dateErrors_def
  statusErrors_def informedTimeErrors_def departmentErrors_def managerEmailErrors_def
  duplicateErrors_def normalizeRecord_def field_mkRow rowKey_mkRow VALID_STATUSES_def
  trim_def isSpace_def emailRegexTest_def toLowerCase_def toLowerChar_def exampleLib_def
  dateGreater_def hoursBetween_def Let_def

lemma fieldErrors_rowGood: "fieldErrors exampleLib rowGood = []"
  by (simp add: rowGood_def row_rules)

lemma normalizeRecord_rowGood:
  "normalizeRecord exampleLib rowGood =
     Some \<lparr> rec_employeeId = ''E7'', rec_employeeName = ''Eve'', rec_date = Date 1709510400000,
            rec_status = ''Present'', rec_informedTime = None, rec_department = ''Ops'',
            rec_managerEmail = ''boss@example.com'' \<rparr>"
  by (simp add: rowGood_def row_rules)



lemma keys_E7:
  "rowKey rowGood = ''E7_2024-03-04''" "rowKey rowAgain = ''E7_2024-03-04''"
  "rowKey rowBadEmail = ''E7_2024-03-04''"
  by (simp_all add: rowGood_def rowAgain_def rowBadEmail_def rowKey_mkRow)

lemma columns_rows:
  "map fst rowGood = REQUIRED_COLUMNS" "map fst rowBadEmail = REQUIRED_COLUMNS"
  "map fst rowPlannedSameInstant = REQUIRED_COLUMNS" "map fst rowConstructor = REQUIRED_COLUMNS"
  by (simp_all add: rowGood_def rowBadEmail_def rowPlannedSameInstant_def rowConstructor_def columns_mkRow)

lemma volume_E7:
  "volumeErrors [(''E7'', [v])] = [EmployeeError ''E7'' [volumeMessage 1]]"
  by (simp add: volumeErrors_def objectEntries_def isArrayIndex_def)

lemma volumeMessage_1:
  "volumeMessage 1 = ''Employee must have approximately 63 working days of data (3 months, 5-day week). Found 1 days.''"
  by (simp add: volumeMessage_def showNat.simps [of "Suc 0"] digitChar_def)

lemma fieldErrors_rowPlanned: "fieldErrors exampleLib rowPlannedSameInstant = []"
  by (simp add: rowPlannedSameInstant_def row_rules)

lemma normalizeRecord_rowPlanned:
  "normalizeRecord exampleLib rowPlannedSameInstant =
     Some \<lparr> rec_employeeId = ''10'', rec_employeeName = ''Dan'', rec_date = Date 1709510400000,
            rec_status = ''Planned Leave'', rec_informedTime = Some (Date 1709510400000),
            rec_department = ''Ops'', rec_managerEmail = ''boss@example.com'' \<rparr>"
  by (simp add: rowPlannedSameInstant_def row_rules)

lemma volume_10:
  "volumeErrors [(''10'', [v])] = [EmployeeError ''10'' [volumeMessage 1]]"
  by (simp add: volumeErrors_def objectEntries_def)

text \<open>
  Claim C1.  In per-row validation a Planned Leave row with a parseable informed time
  receives an informed_time error exactly when the informed timestamp is not strictly
  before the leave date, and an Unplanned Leave row exactly when the two are more than 24
  hours apart.  The source departs from the first part at equality: the row below is a
  planned leave whose informed time is the midnight (local time) that starts the leave
  date, so the informed time is not strictly before the leave date; the row receives no
  informed_time error and is accepted into the valid records.
\<close>

theorem planned_leave_informed_at_leave_date_accepted:
  "field rowPlannedSameInstant ''status'' = Some ''Planned Leave''
   \<and> parsedDateOf exampleLib rowPlannedSameInstant = Date 1709510400000
   \<and> newDate exampleLib ''2024-03-04T00:00:00'' = Date 1709510400000
   \<and> informedTimeErrors exampleLib rowPlannedSameInstant (parsedDateOf exampleLib rowPlannedSameInstant) = []
   \<and> validateAndNormalize exampleLib [rowPlannedSameInstant]
       = Inr \<lparr> valid = False,
               validRecords = [\<lparr> rec_employeeId = ''10'', rec_employeeName = ''Dan'',
                                 rec_date = Date 1709510400000, rec_status = ''Planned Leave'',
                                 rec_informedTime = Some (Date 1709510400000),
                                 rec_department = ''Ops'', rec_managerEmail = ''boss@example.com'' \<rparr>],
               invalidRecords = 1,
               errors = [EmployeeError ''10'' [volumeMessage 1]] \<rparr>"
proof -
  have "validateAndNormalize exampleLib [rowPlannedSameInstant]
       = Inr \<lparr> valid = False,
               validRecords = [\<lparr> rec_employeeId = ''10'', rec_employeeName = ''Dan'',
                                 rec_date = Date 1709510400000, rec_status = ''Planned Leave'',
                                 rec_informedTime = Some (Date 1709510400000),
                                 rec_department = ''Ops'', rec_managerEmail = ''boss@example.com'' \<rparr>],
               invalidRecords = 1,
               errors = [EmployeeError ''10'' [volumeMessage 1]] \<rparr>"
    by (simp add: validateAndNormalize_def columns_rows rowStep_def fieldErrors_rowPlanned
        normalizeRecord_rowPlanned duplicateErrors_def Let_def volume_10 objectPrototypeKeys_def)
  moreover have "field rowPlannedSameInstant ''status'' = Some ''Planned Leave''"
    "parsedDateOf exampleLib rowPlannedSameInstant = Date 1709510400000"
    "newDate exampleLib ''2024-03-04T00:00:00'' = Date 1709510400000"
    "informedTimeErrors exampleLib rowPlannedSameInstant (parsedDateOf exampleLib rowPlannedSameInstant) = []"
    by (simp_all add: rowPlannedSameInstant_def row_rules)
  ultimately show ?thesis by blast
qed

text \<open>
  Claim C8.  The volume check only appends an employee-scoped error for each employee
  whose number of valid rows is outside [55,70] and removes no record: the valid records
  after the check are those of per-row validation.  The source departs from this on a file
  with one valid row whose employee_id is \<^verbatim>\<open>constructor\<close>: the grouping step of
  the volume check throws, and validation returns no result at all.
\<close>

theorem volume_check_aborts_on_prototype_name:
  "validateAndNormalize exampleLib [rowConstructor]
     = Inl (TypeError ''employeeGroups[record.employeeId].push is not a function'')"
proof -
  have "fieldErrors exampleLib rowConstructor = []"
    by (simp add: rowConstructor_def row_rules)
  moreover have "\<exists>v. normalizeRecord exampleLib rowConstructor = Some v \<and> rec_employeeId v = ''constructor''"
    by (simp add: rowConstructor_def row_rules)
  ultimately show ?thesis
    by (auto simp add: validateAndNormalize_def columns_rows rowStep_def duplicateErrors_def Let_def
        objectPrototypeKeys_def)
qed

lemma pairKey_mkRow: "pairKey (mkRow a b c d e f g) = (Some a, Some c)"
  by (simp add: pairKey_def field_mkRow)

lemma pairKeys_E7:
  "pairKey rowGood = (Some ''E7'', Some ''2024-03-04'')"
  "pairKey rowAgain = (Some ''E7'', Some ''2024-03-04'')"
  "pairKey rowBadEmail = (Some ''E7'', Some ''2024-03-04'')"
  "pairKey rowNextDay = (Some ''E7'', Some ''2024-03-05'')"
  "pairKey rowPadded = (Some '' E7'', Some ''2024-03-04'')"
  "pairKey rowJoinedA = (Some ''E7'', Some ''9_2024-03-04'')"
  "pairKey rowJoinedB = (Some ''E7_9'', Some ''2024-03-04'')"
  by (simp_all add: rowGood_def rowAgain_def rowBadEmail_def rowNextDay_def rowPadded_def
      rowJoinedA_def rowJoinedB_def pairKey_mkRow)

lemma rowKeys_more:
  "rowKey rowNextDay = ''E7_2024-03-05''" "rowKey rowPadded = '' E7_2024-03-04''"
  "rowKey rowJoinedA = ''E7_9_2024-03-04''" "rowKey rowJoinedB = ''E7_9_2024-03-04''"
  by (simp_all add: rowNextDay_def rowPadded_def rowJoinedA_def rowJoinedB_def rowKey_mkRow)

lemma columns_more:
  "map fst rowJoinedA = REQUIRED_COLUMNS"
  by (simp add: rowJoinedA_def columns_mkRow)




lemma fieldErrors_rowPadded: "fieldErrors exampleLib rowPadded = []"
  by (simp add: rowPadded_def row_rules)

lemma normalizeRecord_rowPadded:
  "normalizeRecord exampleLib rowPadded =
     Some \<lparr> rec_employeeId = ''E7'', rec_employeeName = ''Eve'', rec_date = Date 1709510400000,
            rec_status = ''Absent'', rec_informedTime = None, rec_department = ''Ops'',
            rec_managerEmail = ''boss@example.com'' \<rparr>"
  by (simp add: rowPadded_def row_rules)

lemma fieldErrors_rowJoined:
  "fieldErrors exampleLib rowJoinedA = [''date must be in YYYY-MM-DD format'']"
  "fieldErrors exampleLib rowJoinedB = []"
  by (simp_all add: rowJoinedA_def rowJoinedB_def row_rules)

lemma volume_E7_two:
  "volumeErrors [(''E7'', [v, w])] = [EmployeeError ''E7'' [volumeMessage 2]]"
  by (simp add: volumeErrors_def objectEntries_def isArrayIndex_def numeral_2_eq_2)


text \<open>
  The two hypotheses on the keys, in the theorem on duplicate rows above, are needed.
  The source compares the cells joined by an underscore, and it does so before the cells
  are trimmed: a row whose pair of cells is new is rejected as a duplicate when the
  joined texts agree, and two rows whose employee ids differ only by surrounding white
  space are both accepted, so that the valid records hold the same employee and date
  twice.
\<close>

lemma joined_keys_collide:
  "pairKey rowJoinedA \<noteq> pairKey rowJoinedB
   \<and> rowKey rowJoinedA = rowKey rowJoinedB
   \<and> fieldErrors exampleLib rowJoinedB = []
   \<and> validateAndNormalize exampleLib [rowJoinedA, rowJoinedB]
       = Inr \<lparr> valid = False, validRecords = [], invalidRecords = 2,
               errors = [RowError 2 [''date must be in YYYY-MM-DD format''],
                         RowError 3 [''duplicate employee_id + date combination'']] \<rparr>"
  by (simp add: validateAndNormalize_def columns_more rowStep_def fieldErrors_rowJoined
      pairKeys_E7 rowKeys_more duplicateErrors_def Let_def volumeErrors_def objectEntries_def)

lemma key_taken_before_trim:
  "pairKey rowGood \<noteq> pairKey rowPadded
   \<and> validateAndNormalize exampleLib [rowGood, rowPadded]
       = Inr \<lparr> valid = False,
               validRecords = [\<lparr> rec_employeeId = ''E7'', rec_employeeName = ''Eve'',
                                 rec_date = Date 1709510400000, rec_status = ''Present'',
                                 rec_informedTime = None, rec_department = ''Ops'',
                                 rec_managerEmail = ''boss@example.com'' \<rparr>,
                               \<lparr> rec_employeeId = ''E7'', rec_employeeName = ''Eve'',
                                 rec_date = Date 1709510400000, rec_status = ''Absent'',
                                 rec_informedTime = None, rec_department = ''Ops'',
                                 rec_managerEmail = ''boss@example.com'' \<rparr>],
               invalidRecords = 1,
               errors = [EmployeeError ''E7'' [volumeMessage 2]] \<rparr>"
  by (simp add: validateAndNormalize_def columns_rows rowStep_def fieldErrors_rowPadded
      fieldErrors_rowGood normalizeRecord_rowGood normalizeRecord_rowPadded
      keys_E7 rowKeys_more pairKeys_E7 duplicateErrors_def Let_def volume_E7_two objectPrototypeKeys_def)



text \<open>C9 on a file whose first record has no manager_email column.\<close>

theorem missing_columns_fatal_witness:
  "\<not> set REQUIRED_COLUMNS \<subseteq> set (map fst (butlast rowGood))
   \<and> validateAndNormalize exampleLib [butlast rowGood, rowAgain]
       = Inl (Error ''Missing required columns: manager_email'')
   \<and> parseCSV exampleLib (Inr [butlast rowGood, rowAgain])
       = Inl (Error ''CSV parsing failed: Missing required columns: manager_email'')"
proof -
  have c: "map fst (butlast rowGood)
             = [''employee_id'', ''employee_name'', ''date'', ''status'', ''informed_time'', ''department'']"
    by (simp add: rowGood_def mkRow_def)
  have h: "\<not> set REQUIRED_COLUMNS \<subseteq> set (map fst (butlast rowGood))"
    by (simp add: c REQUIRED_COLUMNS_def)
  have m: "filter (\<lambda>col. col \<notin> set (map fst (butlast rowGood))) REQUIRED_COLUMNS = [''manager_email'']"
    by (simp add: c REQUIRED_COLUMNS_def)
  from missing_columns_fatal [OF h, of exampleLib "[rowAgain]", unfolded m] h show ?thesis
    by simp
qed

end
